theory Spec2Isabelle
  imports Complex_Main "HOL-Library.Multiset"
begin

section \<open>Data model\<close>

text \<open>
  The interfaces of \<^verbatim>\<open>config.ts\<close> as records. Field names carry a short prefix
  where two interfaces of the source share a name (\<^verbatim>\<open>success\<close>, \<^verbatim>\<open>name\<close>,
  \<^verbatim>\<open>message\<close>) or where the name is a constant of HOL (\<^verbatim>\<open>id\<close>).
  A thrown JavaScript error is a value of \<open>js_error\<close>; a function that may throw
  returns \<open>js_error + 'a\<close> with \<open>Inl\<close> for the throw.
\<close>

datatype js_error = Error string | TypeError string | SyntaxError string

fun error_message :: "js_error \<Rightarrow> string" where
  "error_message (Error m) = m"
| "error_message (TypeError m) = m"
| "error_message (SyntaxError m) = m"

record SmtpServerConfig =
  cfg_id :: string
  cfg_name :: string
  cfg_host :: string
  cfg_port :: int
  cfg_secure :: bool
  cfg_auth_user :: string
  cfg_auth_pass :: string
  isDefault :: bool

text \<open>
  \<^verbatim>\<open>rateLimit: parsedJson.rateLimit || 30\<close>: the field holds the parsed object when there
  is one and the number 30 otherwise.
\<close>

datatype RateLimit = RateLimitConfig bool int | RateLimitNumber int

record SmtpConfig =
  smtpServers :: "SmtpServerConfig list"
  rateLimit :: RateLimit

record EmailLogEntry =
  timestamp :: string
  log_smtpConfig :: string
  log_templateId :: "string option"
  log_recipient :: string
  log_subject :: string
  log_success :: bool
  log_message :: "string option"

record EmailRecipient =
  rcpt_email :: string
  rcpt_name :: "string option"


section \<open>Relay configuration (\<^verbatim>\<open>config.ts\<close>)\<close>

text \<open>
  What \<^verbatim>\<open>JSON.parse\<close> hands to \<^verbatim>\<open>parseSmtpConfigFromEnv\<close>. The property
  \<^verbatim>\<open>smtpServers\<close> of the parsed value is absent or falsy (\<open>ServersFalsy\<close>), a truthy
  value that is not an array (\<open>ServersNotArray\<close>), or an array. The elements of the array
  are taken to be well-typed server objects, as the interface declares them.
  The parsed value itself is \<^verbatim>\<open>null\<close> (then \<^verbatim>\<open>Object.keys\<close> throws a TypeError) or a
  value whose properties can be read.
\<close>

datatype servers_json = ServersFalsy | ServersNotArray | ServersArray "SmtpServerConfig list"

datatype parsed_json = JsonNull | JsonValue servers_json "RateLimit option"

text \<open>
  Base64 decoding followed by \<^verbatim>\<open>JSON.parse\<close> is library code: it is the parameter
  \<open>decode\<close>, which throws (a SyntaxError) or returns the parsed value.
\<close>

type_synonym decoder = "string \<Rightarrow> js_error + parsed_json"

text \<open>\<^verbatim>\<open>config.smtpServers.some((server) => server.isDefault)\<close>\<close>

definition hasDefault :: "SmtpServerConfig list \<Rightarrow> bool" where
  "hasDefault servers = list_ex isDefault servers"

text \<open>
  Lines 107 to 114: when no server is marked, \<^verbatim>\<open>config.smtpServers[0].isDefault = true\<close>.
  The list is never empty here in the source; the empty case returns the list as it is.
\<close>

definition ensureDefault :: "SmtpServerConfig list \<Rightarrow> SmtpServerConfig list" where
  "ensureDefault servers =
     (if \<not> hasDefault servers \<and> length servers > 0
      then (case servers of [] \<Rightarrow> [] | s # rest \<Rightarrow> s\<lparr>isDefault := True\<rparr> # rest)
      else servers)"

text \<open>
  \<^verbatim>\<open>parseSmtpConfigFromEnv\<close>. The argument \<open>env\<close> is the value of
  \<^verbatim>\<open>process.env.SMTP_CONFIG_BASE64\<close> (\<open>None\<close> when unset). The \<^verbatim>\<open>catch\<close> block
  rethrows the error it caught, so every throw of the body is a throw of the function.
  Writes to the process log (\<^verbatim>\<open>logToFile\<close>) swallow their own failures and change
  nothing this theory looks at; they are left out throughout.
\<close>

definition parseSmtpConfigFromEnv :: "decoder \<Rightarrow> string option \<Rightarrow> js_error + SmtpConfig" where
  "parseSmtpConfigFromEnv decode env =
     (case env of
        None \<Rightarrow> Inl (Error ''No config in env!'')
      | Some encodedConfig \<Rightarrow>
          if encodedConfig = [] then Inl (Error ''No config in env!'')
          else (case decode encodedConfig of
                  Inl e \<Rightarrow> Inl e
                | Inr JsonNull \<Rightarrow> Inl (TypeError ''Cannot convert undefined or null to object'')
                | Inr (JsonValue servers rl) \<Rightarrow>
                    (case servers of
                       ServersFalsy \<Rightarrow> Inl (Error ''Config not parsed!'')
                     | ServersNotArray \<Rightarrow> Inl (Error ''Config not parsed!'')
                     | ServersArray xs \<Rightarrow>
                         if length xs = 0 then Inl (Error ''Config not parsed!'')
                         else Inr \<lparr> smtpServers = ensureDefault xs,
                                    rateLimit = (case rl of None \<Rightarrow> RateLimitNumber 30
                                                 | Some r \<Rightarrow> r) \<rparr>)))"

text \<open>
  \<^verbatim>\<open>getSmtpConfigs\<close>, with the module variable \<^verbatim>\<open>cachedSmtpConfig\<close> passed in and
  returned. A throw of the parser leaves the cache as it was (\<^verbatim>\<open>null\<close>) and is rethrown.
\<close>

definition getSmtpConfigs ::
  "decoder \<Rightarrow> string option \<Rightarrow> SmtpConfig option
     \<Rightarrow> (js_error + SmtpServerConfig list) \<times> SmtpConfig option" where
  "getSmtpConfigs decode env cachedSmtpConfig =
     (case cachedSmtpConfig of
        Some c \<Rightarrow> (Inr (smtpServers c), Some c)
      | None \<Rightarrow>
          (case parseSmtpConfigFromEnv decode env of
             Inl e \<Rightarrow> (Inl e, None)
           | Inr c \<Rightarrow> (Inr (smtpServers c), Some c)))"

text \<open>
  The response of \<^verbatim>\<open>handleGetSmtpConfigs\<close>: \<^verbatim>\<open>{success: true, configs}\<close> or
  \<^verbatim>\<open>{success: false, message}\<close>. The \<^verbatim>\<open>content\<close> field of every response of the
  handlers is a rendering of the other fields for display and is not modelled.
\<close>

datatype configs_response = ConfigsRetrieved "SmtpServerConfig list" | ConfigsFailed string

definition handleGetSmtpConfigs ::
  "decoder \<Rightarrow> string option \<Rightarrow> SmtpConfig option \<Rightarrow> configs_response \<times> SmtpConfig option" where
  "handleGetSmtpConfigs decode env cache =
     (case getSmtpConfigs decode env cache of
        (Inr configs, cache') \<Rightarrow> (ConfigsRetrieved configs, cache')
      | (Inl e, cache') \<Rightarrow> (ConfigsFailed (error_message e), cache'))"

text \<open>
  The caches the module can hold: the initial \<^verbatim>\<open>null\<close>, or a configuration the parser
  returned (the only assignment to \<^verbatim>\<open>cachedSmtpConfig\<close> is in \<^verbatim>\<open>getSmtpConfigs\<close>).
\<close>

definition reachable_cache :: "decoder \<Rightarrow> string option \<Rightarrow> SmtpConfig option \<Rightarrow> bool" where
  "reachable_cache decode env cache =
     (case cache of None \<Rightarrow> True
      | Some c \<Rightarrow> parseSmtpConfigFromEnv decode env = Inr c)"


section \<open>Audit log (\<^verbatim>\<open>config.ts\<close>)\<close>

text \<open>
  The file \<^verbatim>\<open>email-logs.json\<close>: absent, present but failing to read or parse
  (\<^verbatim>\<open>readJson\<close> throws), holding JSON that is not an array, or holding the array of
  entries stored so far.
\<close>

datatype log_file = Absent | Unreadable | NotAnArray | Stored "EmailLogEntry list"

text \<open>
  The outcome of \<^verbatim>\<open>fs.writeJson\<close>: it succeeds, or it throws and leaves the file in
  the given state (unchanged, or cut short by a partial write).
\<close>

datatype write_outcome = WriteOk | WriteFails log_file

text \<open>
  The storage one call of the log functions meets: whether \<^verbatim>\<open>fs.ensureDir\<close> succeeds,
  the file, and what a write will do.
\<close>

record storage =
  ensureDir_ok :: bool
  logFile :: log_file
  write_result :: write_outcome

text \<open>
  What \<^verbatim>\<open>readJson\<close> hands back: an array of entries, or a value that is not an array
  (the source casts it to an array without a check).
\<close>

datatype logs_value = LogsArray "EmailLogEntry list" | LogsNotArray

text \<open>
  \<^verbatim>\<open>logEmailActivity\<close> awaits the file system four times (\<^verbatim>\<open>ensureDir\<close>,
  \<^verbatim>\<open>pathExists\<close>, \<^verbatim>\<open>readJson\<close>, \<^verbatim>\<open>writeJson\<close>) and holds no lock, so another call
  can run between its read and its write. The \<^verbatim>\<open>try\<close> block is therefore two steps.

  Lines 170 to 177, up to the value of the local variable \<^verbatim>\<open>logs\<close>: the throw of
  \<^verbatim>\<open>ensureDir\<close> or \<^verbatim>\<open>readJson\<close>, the empty array when there is no file, or what was
  read. \<^verbatim>\<open>fs.pathExists\<close> never throws.
\<close>

definition logEmailActivity_read :: "storage \<Rightarrow> js_error + logs_value" where
  "logEmailActivity_read st =
     (if \<not> ensureDir_ok st then Inl (Error ''ensureDir failed'')
      else (case logFile st of
              Absent \<Rightarrow> Inr (LogsArray [])
            | Unreadable \<Rightarrow> Inl (Error ''readJson failed'')
            | NotAnArray \<Rightarrow> Inr LogsNotArray
            | Stored logs \<Rightarrow> Inr (LogsArray logs)))"

text \<open>
  Lines 180 to 184, in the storage as it is when the call resumes: \<^verbatim>\<open>logs.push\<close>
  (a TypeError on a value that is not an array), then \<^verbatim>\<open>writeJson\<close> of the local
  array, which replaces whatever the file holds by then.
\<close>

definition logEmailActivity_write ::
  "storage \<Rightarrow> logs_value \<Rightarrow> EmailLogEntry \<Rightarrow> (js_error + bool) \<times> storage" where
  "logEmailActivity_write st logs entry =
     (case logs of
        LogsNotArray \<Rightarrow> (Inl (TypeError ''logs.push is not a function''), st)
      | LogsArray xs \<Rightarrow>
          (case write_result st of
             WriteOk \<Rightarrow> (Inr True, st\<lparr>logFile := Stored (xs @ [entry])\<rparr>)
           | WriteFails f \<Rightarrow> (Inl (Error ''writeJson failed''), st\<lparr>logFile := f\<rparr>)))"

text \<open>
  The \<^verbatim>\<open>try\<close> block of a call that runs with no other call in between (lines 169 to
  184), returning the throw or the value together with the storage it leaves.
\<close>

definition logEmailActivity_try :: "storage \<Rightarrow> EmailLogEntry \<Rightarrow> (js_error + bool) \<times> storage" where
  "logEmailActivity_try st entry =
     (case logEmailActivity_read st of
        Inl e \<Rightarrow> (Inl e, st)
      | Inr logs \<Rightarrow> logEmailActivity_write st logs entry)"

text \<open>
  \<^verbatim>\<open>logEmailActivity\<close>: the \<^verbatim>\<open>catch\<close> block writes to the process log
  (\<^verbatim>\<open>logToFile\<close>, which catches its own failures) and returns \<^verbatim>\<open>false\<close>.
\<close>

definition logEmailActivity :: "storage \<Rightarrow> EmailLogEntry \<Rightarrow> (js_error + bool) \<times> storage" where
  "logEmailActivity st entry =
     (case logEmailActivity_try st entry of
        (Inr b, st') \<Rightarrow> (Inr b, st')
      | (Inl e, st') \<Rightarrow> (Inr False, st'))"

text \<open>
  The rest of a call whose read has settled with \<open>r\<close>, resumed in the storage \<open>st\<close> as
  it is by then: the write step, and the \<^verbatim>\<open>catch\<close> block for a throw of either step.
\<close>

definition logEmailActivity_resume ::
  "storage \<Rightarrow> js_error + logs_value \<Rightarrow> EmailLogEntry \<Rightarrow> (js_error + bool) \<times> storage" where
  "logEmailActivity_resume st r entry =
     (case (case r of
              Inl e \<Rightarrow> (Inl e, st)
            | Inr logs \<Rightarrow> logEmailActivity_write st logs entry) of
        (Inr b, st') \<Rightarrow> (Inr b, st')
      | (Inl e, st') \<Rightarrow> (Inr False, st'))"

text \<open>
  Two calls that overlap: both read before either writes, then the first call resumes
  and writes, then the second. The result is the two return values and the storage left.
\<close>

definition overlapping_appends ::
  "storage \<Rightarrow> EmailLogEntry \<Rightarrow> EmailLogEntry
     \<Rightarrow> ((js_error + bool) \<times> (js_error + bool)) \<times> storage" where
  "overlapping_appends st entry1 entry2 =
     (let r1 = logEmailActivity_read st;
          r2 = logEmailActivity_read st
      in (case logEmailActivity_resume st r1 entry1 of
            (res1, st1) \<Rightarrow>
              (case logEmailActivity_resume st1 r2 entry2 of
                 (res2, st2) \<Rightarrow> ((res1, res2), st2))))"

text \<open>The entries a file holds: none when there is no file.\<close>

fun stored_entries :: "log_file \<Rightarrow> EmailLogEntry list option" where
  "stored_entries Absent = Some []"
| "stored_entries (Stored logs) = Some logs"
| "stored_entries Unreadable = None"
| "stored_entries NotAnArray = None"

text \<open>
  \<^verbatim>\<open>getEmailLogs\<close> returns what \<^verbatim>\<open>readJson\<close> parsed, cast to an array without a check,
  and the empty array when the file is absent or the read throws.
\<close>

definition getEmailLogs :: "storage \<Rightarrow> logs_value" where
  "getEmailLogs st =
     (case logFile st of
        Absent \<Rightarrow> LogsArray []
      | Unreadable \<Rightarrow> LogsArray []
      | NotAnArray \<Rightarrow> LogsNotArray
      | Stored logs \<Rightarrow> LogsArray logs)"


section \<open>The tool \<^verbatim>\<open>get-email-logs\<close> (request handler)\<close>

text \<open>
  \<^verbatim>\<open>Array.prototype.sort\<close> with a comparison function is library code. It is modelled
  as the stable sort the language standard requires: an element is placed before the
  first element it does not compare greater than, and elements that compare equal keep
  their order.
\<close>

fun insert_by :: "('a \<Rightarrow> 'a \<Rightarrow> int) \<Rightarrow> 'a \<Rightarrow> 'a list \<Rightarrow> 'a list" where
  "insert_by cmp x [] = [x]"
| "insert_by cmp x (y # ys) = (if cmp x y \<le> 0 then x # y # ys else y # insert_by cmp x ys)"

fun sort_by :: "('a \<Rightarrow> 'a \<Rightarrow> int) \<Rightarrow> 'a list \<Rightarrow> 'a list" where
  "sort_by cmp [] = []"
| "sort_by cmp (x # xs) = insert_by cmp x (sort_by cmp xs)"

text \<open>
  The comparison function returns a number, which can be NaN (\<open>None\<close>). The standard's
  \<^verbatim>\<open>SortCompare\<close> takes a NaN result for +0: the two elements compare equal. With NaN
  among the results the comparison is not consistent and the standard leaves the order
  to the implementation; the insertion above is then one implementation. Node's engine
  sorts by merging natural runs: an array whose neighbours all compare equal is one run
  and stays as it is, which is also what the insertion gives.
\<close>

definition SortCompare :: "('a \<Rightarrow> 'a \<Rightarrow> int option) \<Rightarrow> 'a \<Rightarrow> 'a \<Rightarrow> int" where
  "SortCompare comparefn x y = (case comparefn x y of None \<Rightarrow> 0 | Some v \<Rightarrow> v)"

text \<open>
  \<^verbatim>\<open>new Date(s).getTime()\<close> is the parameter \<open>getTime\<close>: the time value in milliseconds
  of a timestamp string, or NaN (\<open>None\<close>) when the string is not a date. The comparison
  function of the handler is
  \<^verbatim>\<open>(a, b) => new Date(b.timestamp).getTime() - new Date(a.timestamp).getTime()\<close>,
  and a difference with a NaN operand is NaN.
\<close>

definition newest_first ::
  "(string \<Rightarrow> int option) \<Rightarrow> EmailLogEntry \<Rightarrow> EmailLogEntry \<Rightarrow> int option" where
  "newest_first getTime a b =
     (case getTime (timestamp b) of
        None \<Rightarrow> None
      | Some tb \<Rightarrow> (case getTime (timestamp a) of None \<Rightarrow> None | Some ta \<Rightarrow> Some (tb - ta)))"

text \<open>
  The response of the tool: \<^verbatim>\<open>{success: true, result: logs}\<close> or
  \<^verbatim>\<open>{success: false, message: "Failed to retrieve email logs"}\<close>.
\<close>

datatype logs_response = LogsRetrieved "EmailLogEntry list" | LogsFailed string

text \<open>
  The case \<^verbatim>\<open>"get-email-logs"\<close> of the request handler (lines 52 to 108). The limit is a
  whole number here. When \<^verbatim>\<open>getEmailLogs\<close> returned a value that is not an array,
  \<^verbatim>\<open>logs.filter\<close> or \<^verbatim>\<open>logs.sort\<close> throws and the \<^verbatim>\<open>catch\<close> block answers.
\<close>

definition get_email_logs ::
  "(string \<Rightarrow> int option) \<Rightarrow> storage \<Rightarrow> int option \<Rightarrow> bool option \<Rightarrow> logs_response" where
  "get_email_logs getTime st limit filterBySuccess =
     (case getEmailLogs st of
        LogsNotArray \<Rightarrow> LogsFailed ''Failed to retrieve email logs''
      | LogsArray logs0 \<Rightarrow>
          (let logs1 = (case filterBySuccess of
                          None \<Rightarrow> logs0
                        | Some b \<Rightarrow> filter (\<lambda>log. log_success log = b) logs0);
               logs2 = sort_by (SortCompare (newest_first getTime)) logs1;
               logs3 = (case limit of
                          None \<Rightarrow> logs2
                        | Some k \<Rightarrow> if k \<noteq> 0 \<and> k > 0 then take (nat k) logs2 else logs2)
           in LogsRetrieved logs3))"


section \<open>The tool \<^verbatim>\<open>send-email\<close> (request handler)\<close>

text \<open>
  The \<^verbatim>\<open>to\<close> argument of the tool: an array of recipients, or a single value that is
  not an array.
\<close>

datatype to_param = ToArray "EmailRecipient list" | ToSingle EmailRecipient

record send_email_params =
  p_to :: to_param
  p_subject :: string
  p_body :: string
  p_from :: "EmailRecipient option"
  p_cc :: "EmailRecipient list option"
  p_bcc :: "EmailRecipient list option"
  p_templateId :: "string option"
  p_templateData :: "(string \<times> string) list option"
  p_smtpConfigId :: "string option"

record EmailData =
  ed_to :: "EmailRecipient list"
  ed_subject :: string
  ed_body :: string
  ed_from :: "EmailRecipient option"
  ed_cc :: "EmailRecipient list option"
  ed_bcc :: "EmailRecipient list option"
  ed_templateId :: "string option"
  ed_templateData :: "(string \<times> string) list option"

text \<open>What \<^verbatim>\<open>sendEmail\<close> resolves to, and the response of the handler.\<close>

record send_result =
  sr_success :: bool
  sr_message :: "string option"

record send_response =
  resp_success :: bool
  resp_message :: "string option"

text \<open>
  \<^verbatim>\<open>sendEmail\<close> lives in the email service, which is a collaborator of the handler: it
  is the parameter \<open>sendEmail\<close>, a function of the message, the relay identifier and the
  state of the world \<open>'w\<close> (relay, log) that returns a result or throws.
\<close>

type_synonym 'w send_email_fn =
  "EmailData \<Rightarrow> string option \<Rightarrow> 'w \<Rightarrow> (js_error + send_result) \<times> 'w"

text \<open>Line 124: \<^verbatim>\<open>Array.isArray(parameters.to) ? parameters.to : [parameters.to]\<close>.\<close>

fun to_list :: "to_param \<Rightarrow> EmailRecipient list" where
  "to_list (ToArray rs) = rs"
| "to_list (ToSingle r) = [r]"

text \<open>Lines 123 to 136 of \<^verbatim>\<open>handleSendEmail\<close>: the message handed to \<^verbatim>\<open>sendEmail\<close>.\<close>

definition prepareEmailData :: "send_email_params \<Rightarrow> EmailData" where
  "prepareEmailData parameters =
     (let to = to_list (p_to parameters)
      in \<lparr> ed_to = to,
           ed_subject = p_subject parameters,
           ed_body = p_body parameters,
           ed_from = p_from parameters,
           ed_cc = p_cc parameters,
           ed_bcc = p_bcc parameters,
           ed_templateId = p_templateId parameters,
           ed_templateData = p_templateData parameters \<rparr>)"

text \<open>\<^verbatim>\<open>handleSendEmail\<close> (lines 121 to 169).\<close>

definition handleSendEmail ::
  "'w send_email_fn \<Rightarrow> send_email_params \<Rightarrow> 'w \<Rightarrow> send_response \<times> 'w" where
  "handleSendEmail sendEmail parameters w =
     (let emailData = prepareEmailData parameters
      in (case sendEmail emailData (p_smtpConfigId parameters) w of
            (Inr result, w') \<Rightarrow>
              (\<lparr> resp_success = sr_success result, resp_message = sr_message result \<rparr>, w')
          | (Inl e, w') \<Rightarrow>
              (\<lparr> resp_success = False, resp_message = Some (error_message e) \<rparr>, w')))"


section \<open>The tool \<^verbatim>\<open>send-bulk-emails\<close> (request handler)\<close>

record BulkEmailData =
  recipients :: "EmailRecipient list"
  bulk_subject :: string
  bulk_body :: string
  bulk_from :: "EmailRecipient option"
  bulk_cc :: "EmailRecipient list option"
  bulk_bcc :: "EmailRecipient list option"
  bulk_templateId :: "string option"
  bulk_templateData :: "(string \<times> string) list option"
  batchSize :: "nat option"
  delayBetweenBatches :: "nat option"

text \<open>
  The result of \<^verbatim>\<open>sendBulkEmails\<close>, and the response of the handler, which has no
  \<^verbatim>\<open>failures\<close> field when it answers from its \<^verbatim>\<open>catch\<close> block.
\<close>

record BulkResult =
  success :: bool
  totalSent :: nat
  totalFailed :: nat
  failures :: "(EmailRecipient \<times> string option) list"
  message :: string

record bulk_response =
  bresp_success :: bool
  bresp_totalSent :: nat
  bresp_totalFailed :: nat
  bresp_failures :: "(EmailRecipient \<times> string option) list option"
  bresp_message :: string

type_synonym 'w send_bulk_fn =
  "BulkEmailData \<Rightarrow> string option \<Rightarrow> 'w \<Rightarrow> (js_error + BulkResult) \<times> 'w"

text \<open>
  \<^verbatim>\<open>handleSendBulkEmails\<close> (lines 174 to 226), over the bulk engine as the parameter
  \<open>sendBulkEmails\<close>. The request is the typed \<^verbatim>\<open>BulkEmailData\<close> with its relay
  identifier; the recipient list is present, so \<^verbatim>\<open>parameters.recipients?.length || 0\<close>
  is its length.
\<close>

definition handleSendBulkEmails ::
  "'w send_bulk_fn \<Rightarrow> BulkEmailData \<Rightarrow> string option \<Rightarrow> 'w \<Rightarrow> bulk_response \<times> 'w" where
  "handleSendBulkEmails sendBulkEmails parameters smtpConfigId w =
     (case sendBulkEmails parameters smtpConfigId w of
        (Inr result, w') \<Rightarrow>
          (\<lparr> bresp_success = success result,
             bresp_totalSent = totalSent result,
             bresp_totalFailed = totalFailed result,
             bresp_failures = Some (failures result),
             bresp_message = message result \<rparr>, w')
      | (Inl e, w') \<Rightarrow>
          (\<lparr> bresp_success = False,
             bresp_totalSent = 0,
             bresp_totalFailed = length (recipients parameters),
             bresp_failures = None,
             bresp_message = error_message e \<rparr>, w'))"


section \<open>The bulk dispatch engine\<close>

text \<open>
  Modelled from the spec: the email service (\<^verbatim>\<open>emailService.ts\<close>, with
  \<^verbatim>\<open>sendBulkEmails\<close> and \<^verbatim>\<open>sendEmail\<close>) is imported by the request handler but its
  source is not available. The definitions of this section follow the
  algorithm of the specification's section 4.3, step by step.

  Step 3: the recipient list is cut into contiguous groups of \<open>batchSize\<close>, the last of
  which may be smaller. The specification requires a batch size of at least 1; for a
  batch size of 0, which it gives no meaning, the function returns no group.
\<close>

function partitionBatches :: "nat \<Rightarrow> 'a list \<Rightarrow> 'a list list" where
  "partitionBatches B xs =
     (if B = 0 \<or> xs = [] then [] else take B xs # partitionBatches B (drop B xs))"
  by pat_completeness auto
termination
  by (relation "measure (\<lambda>(B, xs). length xs)") auto

declare partitionBatches.simps [simp del]

text \<open>
  Modelled from the spec: the outcome of one delivery attempt (success flag and the
  transport's reason on failure), and the single-message dispatcher as the parameter
  \<open>dispatch\<close>, which never throws: it performs one attempt for one recipient in the world
  \<open>'w\<close> and records the outcome.
\<close>

record DeliveryOutcome =
  do_success :: bool
  do_error :: "string option"

type_synonym 'w dispatcher = "EmailRecipient \<Rightarrow> 'w \<Rightarrow> DeliveryOutcome \<times> 'w"

text \<open>
  Modelled from the spec: step 4 of section 4.3. Every recipient of a group is dispatched, whatever the
  outcomes before it, and the groups are processed in order. The pause between groups
  is time only and has no counterpart here.
\<close>

fun dispatchBatch ::
  "'w dispatcher \<Rightarrow> EmailRecipient list \<Rightarrow> 'w \<Rightarrow> (EmailRecipient \<times> DeliveryOutcome) list \<times> 'w" where
  "dispatchBatch dispatch [] w = ([], w)"
| "dispatchBatch dispatch (r # rs) w =
     (case dispatch r w of
        (out, w1) \<Rightarrow> (case dispatchBatch dispatch rs w1 of
                         (outs, w2) \<Rightarrow> ((r, out) # outs, w2)))"

fun dispatchBatches ::
  "'w dispatcher \<Rightarrow> EmailRecipient list list \<Rightarrow> 'w \<Rightarrow> (EmailRecipient \<times> DeliveryOutcome) list \<times> 'w" where
  "dispatchBatches dispatch [] w = ([], w)"
| "dispatchBatches dispatch (b # bs) w =
     (case dispatchBatch dispatch b w of
        (outs, w1) \<Rightarrow> (case dispatchBatches dispatch bs w1 of
                          (outs', w2) \<Rightarrow> (outs @ outs', w2)))"

text \<open>
  Modelled from the spec: steps 5 to 7 of section 4.3. The totals, the failure list in the order the
  outcomes were recorded, the success flag, and a summary message (\<open>summary\<close>, a
  rendering of the totals).
\<close>

definition aggregate ::
  "(nat \<Rightarrow> nat \<Rightarrow> string) \<Rightarrow> (EmailRecipient \<times> DeliveryOutcome) list \<Rightarrow> BulkResult" where
  "aggregate summary outs =
     (let sent = length (filter (\<lambda>(r, out). do_success out) outs);
          failed = length (filter (\<lambda>(r, out). \<not> do_success out) outs)
      in \<lparr> success = (failed = 0),
           totalSent = sent,
           totalFailed = failed,
           failures = map (\<lambda>(r, out). (r, do_error out))
                          (filter (\<lambda>(r, out). \<not> do_success out) outs),
           message = summary sent failed \<rparr>)"

text \<open>
  Modelled from the spec: steps 1, 2 and 7 of section 4.3. The relay and the template content are
  resolved once, by the parameters \<open>resolveRelay\<close> and \<open>resolveTemplate\<close>; a failure of
  either ends the operation before any send, with an overall failure that counts every
  recipient as failed. The default batch size is 10.
\<close>

definition sendBulkEmails ::
  "(string option \<Rightarrow> 'w \<Rightarrow> js_error + 'relay)
     \<Rightarrow> (BulkEmailData \<Rightarrow> 'w \<Rightarrow> js_error + 'content)
     \<Rightarrow> ('relay \<Rightarrow> 'content \<Rightarrow> 'w dispatcher)
     \<Rightarrow> (nat \<Rightarrow> nat \<Rightarrow> string)
     \<Rightarrow> 'w send_bulk_fn" where
  "sendBulkEmails resolveRelay resolveTemplate dispatch summary request smtpConfigId w =
     (let aborted = (\<lambda>e. \<lparr> success = False,
                           totalSent = 0,
                           totalFailed = length (recipients request),
                           failures = [],
                           message = error_message e \<rparr>)
      in (case resolveRelay smtpConfigId w of
            Inl e \<Rightarrow> (Inr (aborted e), w)
          | Inr relay \<Rightarrow>
              (case resolveTemplate request w of
                 Inl e \<Rightarrow> (Inr (aborted e), w)
               | Inr content \<Rightarrow>
                   (let B = (case batchSize request of None \<Rightarrow> 10 | Some b \<Rightarrow> b);
                        batches = partitionBatches B (recipients request)
                    in (case dispatchBatches (dispatch relay content) batches w of
                          (outs, w') \<Rightarrow> (Inr (aggregate summary outs), w'))))))"


section \<open>Predicates and examples used in the statements\<close>

text \<open>Relay and template both resolve for a request in a world.\<close>

definition resolves ::
  "(string option \<Rightarrow> 'w \<Rightarrow> js_error + 'relay) \<Rightarrow> (BulkEmailData \<Rightarrow> 'w \<Rightarrow> js_error + 'content)
     \<Rightarrow> BulkEmailData \<Rightarrow> string option \<Rightarrow> 'w \<Rightarrow> bool" where
  "resolves resolveRelay resolveTemplate request smtpConfigId w =
     (case resolveRelay smtpConfigId w of
        Inl e \<Rightarrow> False
      | Inr relay \<Rightarrow> (case resolveTemplate request w of Inl e \<Rightarrow> False | Inr content \<Rightarrow> True))"

text \<open>
  A bulk request of three recipients in batches of two, over a relay registry with the
  one relay \<open>default\<close>, no templates, and a transport that rejects the second recipient.
  The world counts the delivery attempts.
\<close>

definition example_recipient :: "string \<Rightarrow> EmailRecipient" where
  "example_recipient a = \<lparr> rcpt_email = a, rcpt_name = None \<rparr>"

definition example_bulk_request :: BulkEmailData where
  "example_bulk_request =
     \<lparr> recipients = [example_recipient ''a@example.org'', example_recipient ''b@example.org'',
                      example_recipient ''c@example.org''],
       bulk_subject = ''Hello'', bulk_body = ''Hi'', bulk_from = None, bulk_cc = None,
       bulk_bcc = None, bulk_templateId = None, bulk_templateData = None,
       batchSize = Some 2, delayBetweenBatches = Some 0 \<rparr>"

definition example_resolveRelay :: "string option \<Rightarrow> nat \<Rightarrow> js_error + string" where
  "example_resolveRelay smtpConfigId w =
     (case smtpConfigId of
        None \<Rightarrow> Inr ''default''
      | Some i \<Rightarrow> if i = ''default'' then Inr i else Inl (Error ''SMTP configuration not found''))"

definition example_resolveTemplate :: "BulkEmailData \<Rightarrow> nat \<Rightarrow> js_error + string \<times> string" where
  "example_resolveTemplate request w =
     (case bulk_templateId request of
        None \<Rightarrow> Inr (bulk_subject request, bulk_body request)
      | Some t \<Rightarrow> Inl (Error ''Template not found''))"

definition example_dispatch :: "string \<Rightarrow> string \<times> string \<Rightarrow> nat dispatcher" where
  "example_dispatch relay content r w =
     (if rcpt_email r = ''b@example.org''
      then (\<lparr> do_success = False, do_error = Some ''rejected'' \<rparr>, Suc w)
      else (\<lparr> do_success = True, do_error = None \<rparr>, Suc w))"

definition example_summary :: "nat \<Rightarrow> nat \<Rightarrow> string" where
  "example_summary sent failed = (if failed = 0 then ''all sent'' else ''some failed'')"


text \<open>The number of configurations of a set that carry the default flag.\<close>

definition num_defaults :: "SmtpServerConfig list \<Rightarrow> nat" where
  "num_defaults servers = length (filter isDefault servers)"

text \<open>Relay sets for the examples, and decoders that yield them whatever the text.\<close>

definition example_relay :: "string \<Rightarrow> bool \<Rightarrow> SmtpServerConfig" where
  "example_relay i d =
     \<lparr> cfg_id = i, cfg_name = i, cfg_host = ''smtp.example.org'', cfg_port = 587,
       cfg_secure = False, cfg_auth_user = ''user'', cfg_auth_pass = ''pass'', isDefault = d \<rparr>"

definition decode_two_defaults :: decoder where
  "decode_two_defaults s =
     Inr (JsonValue (ServersArray [example_relay ''a'' True, example_relay ''b'' True]) None)"

definition decode_no_default :: decoder where
  "decode_no_default s =
     Inr (JsonValue (ServersArray [example_relay ''a'' False, example_relay ''b'' False]) None)"

definition decode_no_servers :: decoder where
  "decode_no_servers s = Inr (JsonValue (ServersArray []) None)"

text \<open>
  The configuration was decoded, and its \<^verbatim>\<open>smtpServers\<close> is missing, not an array,
  or an array of no entries.
\<close>

definition empty_or_malformed :: "decoder \<Rightarrow> string option \<Rightarrow> bool" where
  "empty_or_malformed decode env =
     (case env of
        None \<Rightarrow> False
      | Some s \<Rightarrow>
          s \<noteq> [] \<and>
          (case decode s of
             Inl e \<Rightarrow> False
           | Inr JsonNull \<Rightarrow> False
           | Inr (JsonValue servers rl) \<Rightarrow>
               (case servers of
                  ServersFalsy \<Rightarrow> True
                | ServersNotArray \<Rightarrow> True
                | ServersArray xs \<Rightarrow> xs = [])))"

text \<open>
  Entry \<open>b\<close> is no more recent than entry \<open>a\<close>: both timestamps are dates and the time
  value of \<open>b\<close> is at most that of \<open>a\<close>.
\<close>

definition not_newer :: "(string \<Rightarrow> int option) \<Rightarrow> EmailLogEntry \<Rightarrow> EmailLogEntry \<Rightarrow> bool" where
  "not_newer getTime b a =
     (case getTime (timestamp b) of
        None \<Rightarrow> False
      | Some tb \<Rightarrow> (case getTime (timestamp a) of None \<Rightarrow> False | Some ta \<Rightarrow> tb \<le> ta))"

text \<open>A list of entries is in newest-first order of time value.\<close>

definition newest_first_sorted :: "(string \<Rightarrow> int option) \<Rightarrow> EmailLogEntry list \<Rightarrow> bool" where
  "newest_first_sorted getTime logs = sorted_wrt (\<lambda>a b. not_newer getTime b a) logs"

text \<open>The timestamp of every entry of a list is a date.\<close>

definition dated :: "(string \<Rightarrow> int option) \<Rightarrow> EmailLogEntry list \<Rightarrow> bool" where
  "dated getTime logs = list_all (\<lambda>e. getTime (timestamp e) \<noteq> None) logs"

text \<open>The entries that match the filter: all of them when no filter is given.\<close>

definition matching :: "bool option \<Rightarrow> EmailLogEntry list \<Rightarrow> EmailLogEntry list" where
  "matching filterBySuccess logs =
     (case filterBySuccess of None \<Rightarrow> logs
      | Some b \<Rightarrow> filter (\<lambda>log. log_success log = b) logs)"

text \<open>
  Log entries for the examples, and the time values of their timestamps: the first five
  days of 2024 in milliseconds since the epoch, and NaN for every other text.
\<close>

definition example_entry :: "string \<Rightarrow> bool \<Rightarrow> EmailLogEntry" where
  "example_entry t ok =
     \<lparr> timestamp = t, log_smtpConfig = ''default'', log_templateId = None,
       log_recipient = ''a@example.org'', log_subject = ''Hello'', log_success = ok,
       log_message = None \<rparr>"

definition example_getTime :: "string \<Rightarrow> int option" where
  "example_getTime t =
     (if t = ''2024-01-01T00:00:00.000Z'' then Some 1704067200000
      else if t = ''2024-01-02T00:00:00.000Z'' then Some 1704153600000
      else if t = ''2024-01-03T00:00:00.000Z'' then Some 1704240000000
      else if t = ''2024-01-04T00:00:00.000Z'' then Some 1704326400000
      else if t = ''2024-01-05T00:00:00.000Z'' then Some 1704412800000
      else None)"

definition example_entries :: "EmailLogEntry list" where
  "example_entries = [example_entry ''2024-01-01T00:00:00.000Z'' True,
                      example_entry ''2024-01-03T00:00:00.000Z'' True,
                      example_entry ''2024-01-02T00:00:00.000Z'' False,
                      example_entry ''2024-01-04T00:00:00.000Z'' True]"

definition example_storage :: storage where
  "example_storage =
     \<lparr> ensureDir_ok = True, logFile = Stored example_entries, write_result = WriteOk \<rparr>"

text \<open>A stored log in which the second of three entries has a timestamp that is no date.\<close>

definition undated_entries :: "EmailLogEntry list" where
  "undated_entries = [example_entry ''2024-01-01T00:00:00.000Z'' True,
                      example_entry ''not a date'' True,
                      example_entry ''2024-01-02T00:00:00.000Z'' True]"

definition undated_storage :: storage where
  "undated_storage =
     \<lparr> ensureDir_ok = True, logFile = Stored undated_entries, write_result = WriteOk \<rparr>"

text \<open>
  An append goes through: the directory can be ensured, the file is absent or holds an
  array, and the write succeeds.
\<close>

definition append_succeeds :: "storage \<Rightarrow> bool" where
  "append_succeeds st =
     (ensureDir_ok st
      \<and> (case logFile st of Absent \<Rightarrow> True | Stored logs \<Rightarrow> True
          | Unreadable \<Rightarrow> False | NotAnArray \<Rightarrow> False)
      \<and> (case write_result st of WriteOk \<Rightarrow> True | WriteFails f \<Rightarrow> False))"

text \<open>A send-email request, and an email service that reports how many recipients it got.\<close>

definition example_send_params :: "to_param \<Rightarrow> send_email_params" where
  "example_send_params t =
     \<lparr> p_to = t, p_subject = ''Hello'', p_body = ''Hi'', p_from = None, p_cc = None,
       p_bcc = None, p_templateId = None, p_templateData = None, p_smtpConfigId = None \<rparr>"

definition example_sendEmail :: "nat send_email_fn" where
  "example_sendEmail emailData smtpConfigId w =
     (if ed_to emailData = [] then (Inl (Error ''No recipients''), w)
      else (Inr \<lparr> sr_success = True, sr_message = None \<rparr>, w + length (ed_to emailData)))"

section \<open>Batches of the bulk dispatch engine\<close>

lemma partitionBatches_Nil: "partitionBatches B [] = []"
  by (simp add: partitionBatches.simps)

lemma partitionBatches_step:
  "0 < B \<Longrightarrow> xs \<noteq> [] \<Longrightarrow> partitionBatches B xs = take B xs # partitionBatches B (drop B xs)"
  by (subst partitionBatches.simps) simp

lemma concat_partitionBatches: "0 < B \<Longrightarrow> concat (partitionBatches B xs) = xs"
proof (induction B xs rule: partitionBatches.induct)
  case (1 B xs)
  show ?case
  proof (cases "xs = []")
    case True
    then show ?thesis by (simp add: partitionBatches_Nil)
  next
    case False
    with 1 show ?thesis by (simp add: partitionBatches_step)
  qed
qed

lemma div_add_self_Suc: "0 < B \<Longrightarrow> (a + B) div B = Suc (a div B)" for a B :: nat
  by simp

lemma ceil_div_step:
  fixes n B :: nat
  assumes "0 < B" "0 < n"
  shows "(n + B - 1) div B = Suc ((n - B + B - 1) div B)"
proof (cases "B \<le> n")
  case True
  have e: "n + B - 1 = (n - B + B - 1) + B" using True assms by arith
  have "(n + B - 1) div B = ((n - B + B - 1) + B) div B"
    using arg_cong [OF e, of "\<lambda>x. x div B"] .
  also have "\<dots> = Suc ((n - B + B - 1) div B)"
    using assms(1) by (rule div_add_self_Suc)
  finally show ?thesis .
next
  case False
  have a: "n - B + B - 1 = B - 1" using False by arith
  have b: "(B - 1) div B = 0" using assms by simp
  have e: "n + B - 1 = (n - 1) + B" using assms by arith
  have c: "(n - 1) div B = 0" using False assms by simp
  have "(n + B - 1) div B = ((n - 1) + B) div B"
    using arg_cong [OF e, of "\<lambda>x. x div B"] .
  also have "\<dots> = Suc ((n - 1) div B)"
    using assms(1) by (rule div_add_self_Suc)
  also have "\<dots> = Suc ((B - 1) div B)" by (simp only: b c)
  also have "\<dots> = Suc ((n - B + B - 1) div B)" by (simp only: a)
  finally show ?thesis .
qed

lemma length_partitionBatches:
  "0 < B \<Longrightarrow> length (partitionBatches B xs) = (length xs + B - 1) div B"
proof (induction B xs rule: partitionBatches.induct)
  case (1 B xs)
  show ?case
  proof (cases "xs = []")
    case True
    then show ?thesis using 1(2) by (simp add: partitionBatches_Nil)
  next
    case False
    then have "length (partitionBatches B xs) = Suc ((length xs - B + B - 1) div B)"
      using 1 by (simp add: partitionBatches_step)
    also have "\<dots> = (length xs + B - 1) div B"
      using ceil_div_step [of B "length xs"] 1(2) False by simp
    finally show ?thesis .
  qed
qed

lemma nth_partitionBatches:
  "0 < B \<Longrightarrow> i < length (partitionBatches B xs)
     \<Longrightarrow> partitionBatches B xs ! i = take B (drop (i * B) xs)"
proof (induction B xs arbitrary: i rule: partitionBatches.induct)
  case (1 B xs)
  show ?case
  proof (cases "xs = []")
    case True
    with 1(3) show ?thesis by (simp add: partitionBatches_Nil)
  next
    case False
    note step = partitionBatches_step [OF 1(2) False]
    show ?thesis
    proof (cases i)
      case 0
      then show ?thesis by (simp add: step)
    next
      case (Suc j)
      with 1(3) have "j < length (partitionBatches B (drop B xs))" by (simp add: step)
      with 1(1) [of j] 1(2) False
      have "partitionBatches B (drop B xs) ! j = take B (drop (j * B) (drop B xs))" by simp
      then show ?thesis using Suc by (simp add: step add.commute)
    qed
  qed
qed

lemma ceil_div_upper:
  fixes n B :: nat
  assumes "0 < B"
  shows "n \<le> ((n + B - 1) div B) * B"
proof -
  have "(n + B - 1) div B * B + (n + B - 1) mod B = n + B - 1" by simp
  moreover have "(n + B - 1) mod B < B" using assms by simp
  ultimately show ?thesis by arith
qed

lemma ceil_div_lower:
  fixes n B :: nat
  assumes "0 < B" "0 < n"
  shows "((n + B - 1) div B - 1) * B < n"
proof -
  have "(n + B - 1) div B * B \<le> n + B - 1" by simp
  moreover have "((n + B - 1) div B - 1) * B = (n + B - 1) div B * B - B"
    by (simp add: diff_mult_distrib)
  ultimately show ?thesis using assms by arith
qed

lemma batch_sizes:
  assumes "0 < B" "i < length (partitionBatches B xs)"
  shows "length (partitionBatches B xs ! i) =
           (if Suc i < length (partitionBatches B xs) then B else length xs - i * B)"
    and "1 \<le> length (partitionBatches B xs ! i)"
    and "length (partitionBatches B xs ! i) \<le> B"
proof -
  let ?k = "(length xs + B - 1) div B"
  have k: "length (partitionBatches B xs) = ?k"
    using assms(1) by (rule length_partitionBatches)
  have len: "length (partitionBatches B xs ! i) = min B (length xs - i * B)"
    using nth_partitionBatches [OF assms] by simp
  have pos: "0 < length xs" using assms k by (cases xs) (auto simp: partitionBatches_Nil)
  have "i \<le> ?k - 1" using assms(2) k by simp
  then have "i * B \<le> (?k - 1) * B" by simp
  also have "\<dots> < length xs" using ceil_div_lower [OF assms(1) pos] .
  finally have lt: "i * B < length xs" .
  show "1 \<le> length (partitionBatches B xs ! i)" using len lt assms(1) by simp
  show "length (partitionBatches B xs ! i) \<le> B" using len by simp
  show "length (partitionBatches B xs ! i) =
           (if Suc i < length (partitionBatches B xs) then B else length xs - i * B)"
  proof (cases "Suc i < length (partitionBatches B xs)")
    case True
    then have "Suc i \<le> ?k - 1" using k by simp
    then have "Suc i * B \<le> (?k - 1) * B" by (rule mult_le_mono1)
    also have "\<dots> < length xs" using ceil_div_lower [OF assms(1) pos] .
    finally have "B \<le> length xs - i * B" by simp
    then show ?thesis using True len by simp
  next
    case False
    then have "i = ?k - 1" using assms(2) k by simp
    moreover have "length xs \<le> ?k * B" using ceil_div_upper [OF assms(1)] .
    ultimately have "length xs - i * B \<le> B"
      using pos assms(2) k by (simp add: diff_mult_distrib)
    then show ?thesis using False len by simp
  qed
qed

lemma ceil_div_is_ceiling:
  fixes n B :: nat
  assumes "0 < B"
  shows "int ((n + B - 1) div B) = \<lceil>real n / real B\<rceil>"
proof (cases "n = 0")
  case True
  then show ?thesis using assms by simp
next
  case False
  let ?k = "(n + B - 1) div B"
  have up: "n \<le> ?k * B" using ceil_div_upper [OF assms] .
  have lo: "(?k - 1) * B < n" using ceil_div_lower [OF assms] False by simp
  have kpos: "1 \<le> ?k" using up False by (cases "?k") auto
  have "real n \<le> real (?k * B)" using up by (simp only: of_nat_le_iff)
  then have a: "real n / real B \<le> real ?k"
    using assms by (simp add: pos_divide_le_eq)
  have "real ((?k - 1) * B) < real n" using lo by (simp only: of_nat_less_iff)
  then have "real (?k - 1) < real n / real B"
    using assms by (simp add: pos_less_divide_eq)
  then have b: "real ?k - 1 < real n / real B"
    using kpos by simp
  have "\<lceil>real n / real B\<rceil> = int ?k"
    by (rule ceiling_unique) (use a b in simp_all)
  then show ?thesis by simp
qed


text \<open>
  C1. For every recipient list of length N and every batch size B of at least 1, the
  list is cut into ceil(N/B) batches whose concatenation in order is the list; batch
  number i holds the B recipients from position i * B on (fewer when the list ends), so
  the batches are contiguous, none is empty, and each has exactly B recipients except
  possibly the last, which has at most B.
\<close>

theorem partitionBatches_ceil_contiguous:
  assumes "1 \<le> B"
  shows "int (length (partitionBatches B xs)) = \<lceil>real (length xs) / real B\<rceil>
       \<and> concat (partitionBatches B xs) = xs
       \<and> (\<forall>i < length (partitionBatches B xs).
             partitionBatches B xs ! i = take B (drop (i * B) xs)
           \<and> 1 \<le> length (partitionBatches B xs ! i)
           \<and> length (partitionBatches B xs ! i) \<le> B
           \<and> (Suc i < length (partitionBatches B xs)
                \<longrightarrow> length (partitionBatches B xs ! i) = B))"
proof -
  have B: "0 < B" using assms by simp
  have "int (length (partitionBatches B xs)) = \<lceil>real (length xs) / real B\<rceil>"
    using length_partitionBatches [OF B, of xs] ceil_div_is_ceiling [OF B, of "length xs"]
    by simp
  moreover have "concat (partitionBatches B xs) = xs"
    using B by (rule concat_partitionBatches)
  moreover have "\<forall>i < length (partitionBatches B xs).
             partitionBatches B xs ! i = take B (drop (i * B) xs)
           \<and> 1 \<le> length (partitionBatches B xs ! i)
           \<and> length (partitionBatches B xs ! i) \<le> B
           \<and> (Suc i < length (partitionBatches B xs)
                \<longrightarrow> length (partitionBatches B xs ! i) = B)"
  proof (intro allI impI conjI)
    fix i assume i: "i < length (partitionBatches B xs)"
    show "partitionBatches B xs ! i = take B (drop (i * B) xs)"
      using B i by (rule nth_partitionBatches)
    show "1 \<le> length (partitionBatches B xs ! i)"
      using B i by (rule batch_sizes(2))
    show "length (partitionBatches B xs ! i) \<le> B"
      using B i by (rule batch_sizes(3))
    assume "Suc i < length (partitionBatches B xs)"
    then show "length (partitionBatches B xs ! i) = B"
      using batch_sizes(1) [OF B i] by simp
  qed
  ultimately show ?thesis by blast
qed

lemma partitionBatches_five_by_two:
  "partitionBatches 2 [1, 2, 3, 4, 5 :: nat] = [[1, 2], [3, 4], [5]]"
  by (simp add: partitionBatches.simps)

theorem partitionBatches_ceil_contiguous_witness:
  "(1::nat) \<le> 2
   \<and> partitionBatches 2 [1, 2, 3, 4, 5 :: nat] = [[1, 2], [3, 4], [5]]
   \<and> int (length (partitionBatches 2 [1, 2, 3, 4, 5 :: nat])) = \<lceil>real (length [1, 2, 3, 4, 5 :: nat]) / real (2::nat)\<rceil>
   \<and> concat (partitionBatches 2 [1, 2, 3, 4, 5 :: nat]) = [1, 2, 3, 4, 5]"
proof -
  have h: "(1::nat) \<le> 2" by simp
  show ?thesis
    using h partitionBatches_ceil_contiguous [OF h, of "[1, 2, 3, 4, 5 :: nat]"]
      partitionBatches_five_by_two
    by blast
qed


section \<open>Totals of a bulk request\<close>

lemma dispatchBatch_recipients: "map fst (fst (dispatchBatch d rs w)) = rs"
proof (induction rs arbitrary: w)
  case Nil
  show ?case by simp
next
  case (Cons r rs)
  obtain out w1 where r: "d r w = (out, w1)" by (cases "d r w")
  obtain outs w2 where rs: "dispatchBatch d rs w1 = (outs, w2)"
    by (cases "dispatchBatch d rs w1")
  have "map fst outs = rs" using Cons.IH [of w1] rs by simp
  then show ?case using r rs by simp
qed

lemma dispatchBatches_recipients: "map fst (fst (dispatchBatches d bs w)) = concat bs"
proof (induction bs arbitrary: w)
  case Nil
  show ?case by simp
next
  case (Cons b bs)
  obtain outs w1 where b: "dispatchBatch d b w = (outs, w1)" by (cases "dispatchBatch d b w")
  obtain outs' w2 where bs: "dispatchBatches d bs w1 = (outs', w2)"
    by (cases "dispatchBatches d bs w1")
  have "map fst outs = b" using dispatchBatch_recipients [of d b w] b by simp
  moreover have "map fst outs' = concat bs" using Cons.IH [of w1] bs by simp
  ultimately show ?case using b bs by simp
qed

lemma aggregate_totals:
  "totalSent (aggregate summary outs) + totalFailed (aggregate summary outs) = length outs"
  "success (aggregate summary outs) \<longleftrightarrow> totalFailed (aggregate summary outs) = 0"
  "length (failures (aggregate summary outs)) = totalFailed (aggregate summary outs)"
  by (simp_all add: aggregate_def Let_def sum_length_filter_compl case_prod_unfold)

lemma dispatched_all:
  assumes "0 < B"
  shows "map fst (fst (dispatchBatches d (partitionBatches B rs) w)) = rs"
  using dispatchBatches_recipients [of d "partitionBatches B rs" w]
    concat_partitionBatches [OF assms, of rs] by simp


lemma sendBulkEmails_completed:
  assumes "\<forall>b. batchSize request = Some b \<longrightarrow> 1 \<le> b"
    and "resolves resolveRelay resolveTemplate request smtpConfigId w"
  shows "\<exists>result w'. sendBulkEmails resolveRelay resolveTemplate dispatch summary request smtpConfigId w
            = (Inr result, w')
          \<and> totalSent result + totalFailed result = length (recipients request)
          \<and> (success result \<longleftrightarrow> totalFailed result = 0)"
proof -
  obtain relay where relay: "resolveRelay smtpConfigId w = Inr relay"
    using assms(2) by (auto simp: resolves_def split: sum.splits)
  obtain content where content: "resolveTemplate request w = Inr content"
    using assms(2) by (auto simp: resolves_def split: sum.splits)
  define B where "B = (case batchSize request of None \<Rightarrow> 10 | Some b \<Rightarrow> b)"
  have B: "0 < B" using assms(1) by (cases "batchSize request") (auto simp: B_def)
  obtain outs w' where outs:
    "dispatchBatches (dispatch relay content) (partitionBatches B (recipients request)) w = (outs, w')"
    by (cases "dispatchBatches (dispatch relay content) (partitionBatches B (recipients request)) w")
  have "map fst outs = recipients request"
    using dispatched_all [OF B, of "dispatch relay content" "recipients request" w] outs by simp
  then have len: "length outs = length (recipients request)"
    using length_map [of fst outs] by simp
  have run: "sendBulkEmails resolveRelay resolveTemplate dispatch summary request smtpConfigId w
               = (Inr (aggregate summary outs), w')"
    using relay content outs by (simp add: sendBulkEmails_def B_def)
  show ?thesis
    using run len aggregate_totals(1) [of summary outs] aggregate_totals(2) [of summary outs]
    by simp
qed

lemma sendBulkEmails_aborted:
  assumes "\<not> resolves resolveRelay resolveTemplate request smtpConfigId w"
  shows "\<exists>result. sendBulkEmails resolveRelay resolveTemplate dispatch summary request smtpConfigId w
            = (Inr result, w)
          \<and> \<not> success result \<and> totalSent result = 0
          \<and> totalFailed result = length (recipients request)"
  using assms by (auto simp: resolves_def sendBulkEmails_def split: sum.splits)

lemma handleSendBulkEmails_returned:
  "engine parameters smtpConfigId w = (Inr result, w')
     \<Longrightarrow> handleSendBulkEmails engine parameters smtpConfigId w =
           (\<lparr> bresp_success = success result, bresp_totalSent = totalSent result,
              bresp_totalFailed = totalFailed result, bresp_failures = Some (failures result),
              bresp_message = message result \<rparr>, w')"
  by (simp add: handleSendBulkEmails_def)

lemma handleSendBulkEmails_thrown:
  "engine parameters smtpConfigId w = (Inl e, w')
     \<Longrightarrow> handleSendBulkEmails engine parameters smtpConfigId w =
           (\<lparr> bresp_success = False, bresp_totalSent = 0,
              bresp_totalFailed = length (recipients parameters), bresp_failures = None,
              bresp_message = error_message e \<rparr>, w')"
  by (simp add: handleSendBulkEmails_def)

text \<open>
  C2. For a request with a batch size of at least 1 (or none, then 10), the response of
  \<^verbatim>\<open>handleSendBulkEmails\<close> over the engine satisfies: when relay and template resolve,
  totalSent + totalFailed is the number of recipients and the success flag is true
  exactly when totalFailed is 0; when resolution fails, the response is a failure with
  totalSent 0 and totalFailed the number of recipients. The same failure response is
  what the handler's own \<^verbatim>\<open>catch\<close> block gives for any engine that throws.
\<close>

theorem handleSendBulkEmails_totals:
  assumes "\<forall>b. batchSize request = Some b \<longrightarrow> 1 \<le> b"
  shows "(let resp = fst (handleSendBulkEmails
                            (sendBulkEmails resolveRelay resolveTemplate dispatch summary)
                            request smtpConfigId w)
          in if resolves resolveRelay resolveTemplate request smtpConfigId w
             then bresp_totalSent resp + bresp_totalFailed resp = length (recipients request)
                  \<and> (bresp_success resp \<longleftrightarrow> bresp_totalFailed resp = 0)
             else \<not> bresp_success resp \<and> bresp_totalSent resp = 0
                  \<and> bresp_totalFailed resp = length (recipients request))
       \<and> (\<forall>engine e w'. engine request smtpConfigId w = (Inl e, w') \<longrightarrow>
             (let resp = fst (handleSendBulkEmails engine request smtpConfigId w)
              in \<not> bresp_success resp \<and> bresp_totalSent resp = 0
                 \<and> bresp_totalFailed resp = length (recipients request)))"
proof (intro conjI allI impI)
  show "let resp = fst (handleSendBulkEmails
                            (sendBulkEmails resolveRelay resolveTemplate dispatch summary)
                            request smtpConfigId w)
          in if resolves resolveRelay resolveTemplate request smtpConfigId w
             then bresp_totalSent resp + bresp_totalFailed resp = length (recipients request)
                  \<and> (bresp_success resp \<longleftrightarrow> bresp_totalFailed resp = 0)
             else \<not> bresp_success resp \<and> bresp_totalSent resp = 0
                  \<and> bresp_totalFailed resp = length (recipients request)"
  proof (cases "resolves resolveRelay resolveTemplate request smtpConfigId w")
    case True
    from sendBulkEmails_completed [OF assms True, of dispatch summary]
    obtain result w' where
      "sendBulkEmails resolveRelay resolveTemplate dispatch summary request smtpConfigId w
         = (Inr result, w')"
      "totalSent result + totalFailed result = length (recipients request)"
      "success result \<longleftrightarrow> totalFailed result = 0"
      by auto
    then show ?thesis
      using True handleSendBulkEmails_returned [of _ request smtpConfigId w result w']
      by (simp add: Let_def)
  next
    case False
    from sendBulkEmails_aborted [OF False, of dispatch summary]
    obtain result where
      "sendBulkEmails resolveRelay resolveTemplate dispatch summary request smtpConfigId w
         = (Inr result, w)"
      "\<not> success result" "totalSent result = 0"
      "totalFailed result = length (recipients request)"
      by auto
    then show ?thesis
      using False handleSendBulkEmails_returned [of _ request smtpConfigId w result w]
      by (simp add: Let_def)
  qed
next
  fix engine :: "'a send_bulk_fn" and e w'
  assume "engine request smtpConfigId w = (Inl e, w')"
  then show "let resp = fst (handleSendBulkEmails engine request smtpConfigId w)
              in \<not> bresp_success resp \<and> bresp_totalSent resp = 0
                 \<and> bresp_totalFailed resp = length (recipients request)"
    using handleSendBulkEmails_thrown [of engine request smtpConfigId w e w']
    by (simp add: Let_def)
qed


lemma example_bulk_response:
  "handleSendBulkEmails
     (sendBulkEmails example_resolveRelay example_resolveTemplate example_dispatch example_summary)
     example_bulk_request None 0
   = (\<lparr> bresp_success = False, bresp_totalSent = 2, bresp_totalFailed = 1,
        bresp_failures = Some [(example_recipient ''b@example.org'', Some ''rejected'')],
        bresp_message = ''some failed'' \<rparr>, 3)"
  by (simp add: handleSendBulkEmails_def sendBulkEmails_def example_bulk_request_def
      example_resolveRelay_def example_resolveTemplate_def example_dispatch_def
      example_summary_def example_recipient_def partitionBatches.simps aggregate_def)

theorem handleSendBulkEmails_totals_witness:
  "batchSize example_bulk_request = Some 2
   \<and> resolves example_resolveRelay example_resolveTemplate example_bulk_request None (0::nat)
   \<and> (let resp = fst (handleSendBulkEmails
                        (sendBulkEmails example_resolveRelay example_resolveTemplate
                           example_dispatch example_summary)
                        example_bulk_request None 0)
      in bresp_totalSent resp + bresp_totalFailed resp = 3
         \<and> (bresp_success resp \<longleftrightarrow> bresp_totalFailed resp = 0))"
proof -
  have h: "\<forall>b. batchSize example_bulk_request = Some b \<longrightarrow> 1 \<le> b"
    by (simp add: example_bulk_request_def)
  have r: "resolves example_resolveRelay example_resolveTemplate example_bulk_request None (0::nat)"
    by (simp add: resolves_def example_resolveRelay_def example_resolveTemplate_def
        example_bulk_request_def)
  have n: "length (recipients example_bulk_request) = 3"
    by (simp add: example_bulk_request_def)
  have b: "batchSize example_bulk_request = Some 2"
    by (simp add: example_bulk_request_def)
  from handleSendBulkEmails_totals [OF h, of example_resolveRelay example_resolveTemplate
      example_dispatch example_summary None 0]
  show ?thesis using b r n by (simp add: Let_def)
qed


section \<open>Load-time normalization of the relay set\<close>

lemma hasDefault_num: "hasDefault xs \<longleftrightarrow> 0 < num_defaults xs"
  by (simp add: hasDefault_def num_defaults_def list_ex_iff filter_empty_conv)

lemma ensureDefault_marked: "0 < num_defaults xs \<Longrightarrow> ensureDefault xs = xs"
  by (simp add: ensureDefault_def hasDefault_num)

lemma ensureDefault_unmarked:
  "num_defaults (x # xs) = 0 \<Longrightarrow> ensureDefault (x # xs) = x\<lparr>isDefault := True\<rparr> # xs"
  by (simp add: ensureDefault_def hasDefault_num)

lemma num_defaults_promoted:
  "num_defaults (x # xs) = 0 \<Longrightarrow> num_defaults (x\<lparr>isDefault := True\<rparr> # xs) = 1"
  by (simp add: num_defaults_def split: if_splits)

lemma parse_Inr:
  assumes "parseSmtpConfigFromEnv decode env = Inr c"
  shows "\<exists>s rl xs. env = Some s \<and> s \<noteq> [] \<and> decode s = Inr (JsonValue (ServersArray xs) rl)
           \<and> xs \<noteq> [] \<and> smtpServers c = ensureDefault xs"
  using assms
  by (auto simp: parseSmtpConfigFromEnv_def
      split: option.splits if_splits sum.splits parsed_json.splits servers_json.splits)

text \<open>
  C3 (as amended). When \<^verbatim>\<open>parseSmtpConfigFromEnv\<close> returns a configuration, it read a
  non-empty array of relays, and the returned set has as many relays and at least one
  that carries the default flag. If no relay of the array was marked, the returned set is
  the array with its first relay promoted, and exactly one relay carries the flag. If
  one or more were marked, the returned set is the array unchanged.
\<close>

theorem parse_default_normalization:
  assumes "parseSmtpConfigFromEnv decode env = Inr c"
  shows "\<exists>s rl xs. env = Some s \<and> decode s = Inr (JsonValue (ServersArray xs) rl) \<and> xs \<noteq> []
           \<and> length (smtpServers c) = length xs
           \<and> 1 \<le> num_defaults (smtpServers c)
           \<and> (if num_defaults xs = 0
               then smtpServers c = (hd xs)\<lparr>isDefault := True\<rparr> # tl xs
                    \<and> num_defaults (smtpServers c) = 1
               else smtpServers c = xs)"
proof -
  from parse_Inr [OF assms] obtain s rl xs where
    env: "env = Some s" and dec: "decode s = Inr (JsonValue (ServersArray xs) rl)"
    and ne: "xs \<noteq> []" and c: "smtpServers c = ensureDefault xs"
    by auto
  obtain x rest where xs: "xs = x # rest" using ne by (cases xs) auto
  show ?thesis
  proof (cases "num_defaults xs = 0")
    case True
    have "smtpServers c = x\<lparr>isDefault := True\<rparr> # rest"
      using True c xs ensureDefault_unmarked [of x rest] by simp
    moreover have "num_defaults (x\<lparr>isDefault := True\<rparr> # rest) = 1"
      using True xs num_defaults_promoted [of x rest] by simp
    ultimately show ?thesis using env dec ne True xs by simp
  next
    case False
    then have "smtpServers c = xs" using c ensureDefault_marked [of xs] by simp
    then show ?thesis using env dec ne False by simp
  qed
qed

text \<open>
  A set loaded with two relays marked default keeps both marks: "exactly one" fails.
\<close>

theorem parse_exactly_one_default_counterexample:
  "parseSmtpConfigFromEnv decode_two_defaults (Some ''W10='') =
     Inr \<lparr> smtpServers = [example_relay ''a'' True, example_relay ''b'' True],
           rateLimit = RateLimitNumber 30 \<rparr>
   \<and> num_defaults [example_relay ''a'' True, example_relay ''b'' True] = 2
   \<and> num_defaults [example_relay ''a'' True, example_relay ''b'' True] \<noteq> 1"
  by (simp add: parseSmtpConfigFromEnv_def decode_two_defaults_def ensureDefault_def
      hasDefault_def num_defaults_def example_relay_def)

theorem parse_default_normalization_witness:
  "parseSmtpConfigFromEnv decode_no_default (Some ''W10='') =
     Inr \<lparr> smtpServers = [example_relay ''a'' True, example_relay ''b'' False],
           rateLimit = RateLimitNumber 30 \<rparr>
   \<and> 1 \<le> num_defaults [example_relay ''a'' True, example_relay ''b'' False]"
proof -
  have h: "parseSmtpConfigFromEnv decode_no_default (Some ''W10='') =
     Inr \<lparr> smtpServers = [example_relay ''a'' True, example_relay ''b'' False],
           rateLimit = RateLimitNumber 30 \<rparr>"
    by (simp add: parseSmtpConfigFromEnv_def decode_no_default_def ensureDefault_def
      hasDefault_def example_relay_def)
  from parse_default_normalization [OF h] show ?thesis using h by auto
qed

section \<open>Empty and malformed configurations\<close>

lemma parse_malformed:
  assumes "empty_or_malformed decode env"
  shows "parseSmtpConfigFromEnv decode env = Inl (Error ''Config not parsed!'')"
  using assms
  by (auto simp: empty_or_malformed_def parseSmtpConfigFromEnv_def
      split: option.splits sum.splits parsed_json.splits servers_json.splits)

lemma parse_no_env:
  "parseSmtpConfigFromEnv decode None = Inl (Error ''No config in env!'')"
  "parseSmtpConfigFromEnv decode (Some []) = Inl (Error ''No config in env!'')"
  by (simp_all add: parseSmtpConfigFromEnv_def)

lemma ensureDefault_Nil_iff: "ensureDefault xs = [] \<longleftrightarrow> xs = []"
  by (cases xs) (simp_all add: ensureDefault_def)

lemma parse_nonempty:
  assumes "parseSmtpConfigFromEnv decode env = Inr c"
  shows "smtpServers c \<noteq> []"
proof -
  from parse_Inr [OF assms] obtain xs where "xs \<noteq> []" "smtpServers c = ensureDefault xs"
    by auto
  then show ?thesis by (simp add: ensureDefault_Nil_iff)
qed

text \<open>
  C4. When the decoded configuration has no \<^verbatim>\<open>smtpServers\<close>, or one that is not an
  array or has no entries, \<^verbatim>\<open>parseSmtpConfigFromEnv\<close> throws, \<^verbatim>\<open>getSmtpConfigs\<close>
  rethrows and leaves the cache empty, and the tool answers with a failure; the same
  holds, with another message, when the environment holds no configuration at all. From
  the initial cache or any cache the module can hold, \<^verbatim>\<open>getSmtpConfigs\<close> never returns
  an empty list and the tool never answers with one.
\<close>

theorem config_loading_fails_never_empty:
  "(empty_or_malformed decode env \<longrightarrow>
      parseSmtpConfigFromEnv decode env = Inl (Error ''Config not parsed!'')
    \<and> getSmtpConfigs decode env None = (Inl (Error ''Config not parsed!''), None)
    \<and> handleGetSmtpConfigs decode env None = (ConfigsFailed ''Config not parsed!'', None))
   \<and> (env = None \<or> env = Some [] \<longrightarrow>
      parseSmtpConfigFromEnv decode env = Inl (Error ''No config in env!'')
    \<and> getSmtpConfigs decode env None = (Inl (Error ''No config in env!''), None)
    \<and> handleGetSmtpConfigs decode env None = (ConfigsFailed ''No config in env!'', None))
   \<and> (reachable_cache decode env cache \<longrightarrow>
      fst (getSmtpConfigs decode env cache) \<noteq> Inr []
    \<and> fst (handleGetSmtpConfigs decode env cache) \<noteq> ConfigsRetrieved []
    \<and> reachable_cache decode env (snd (getSmtpConfigs decode env cache))
    \<and> snd (handleGetSmtpConfigs decode env cache) = snd (getSmtpConfigs decode env cache))"
proof (intro conjI impI)
  assume m: "empty_or_malformed decode env"
  show p: "parseSmtpConfigFromEnv decode env = Inl (Error ''Config not parsed!'')"
    using m by (rule parse_malformed)
  show g: "getSmtpConfigs decode env None = (Inl (Error ''Config not parsed!''), None)"
    using p by (simp add: getSmtpConfigs_def)
  show "handleGetSmtpConfigs decode env None = (ConfigsFailed ''Config not parsed!'', None)"
    using g by (simp add: handleGetSmtpConfigs_def)
next
  assume "env = None \<or> env = Some []"
  then show p: "parseSmtpConfigFromEnv decode env = Inl (Error ''No config in env!'')"
    using parse_no_env [of decode] by auto
  show g: "getSmtpConfigs decode env None = (Inl (Error ''No config in env!''), None)"
    using p by (simp add: getSmtpConfigs_def)
  show "handleGetSmtpConfigs decode env None = (ConfigsFailed ''No config in env!'', None)"
    using g by (simp add: handleGetSmtpConfigs_def)
next
  assume r: "reachable_cache decode env cache"
  show a: "fst (getSmtpConfigs decode env cache) \<noteq> Inr []"
    using r parse_nonempty [of decode env]
    by (auto simp: reachable_cache_def getSmtpConfigs_def split: option.splits sum.splits)
  show "fst (handleGetSmtpConfigs decode env cache) \<noteq> ConfigsRetrieved []"
    using a by (auto simp: handleGetSmtpConfigs_def split: prod.splits sum.splits)
  show "reachable_cache decode env (snd (getSmtpConfigs decode env cache))"
    using r
    by (auto simp: reachable_cache_def getSmtpConfigs_def split: option.splits sum.splits)
  show "snd (handleGetSmtpConfigs decode env cache) = snd (getSmtpConfigs decode env cache)"
    by (auto simp: handleGetSmtpConfigs_def split: prod.splits sum.splits)
qed

theorem config_loading_fails_never_empty_witness:
  "empty_or_malformed decode_no_servers (Some ''W10='')
   \<and> reachable_cache decode_no_servers (Some ''W10='') None
   \<and> handleGetSmtpConfigs decode_no_servers (Some ''W10='') None
       = (ConfigsFailed ''Config not parsed!'', None)
   \<and> fst (getSmtpConfigs decode_no_servers (Some ''W10='') None) \<noteq> Inr []
   \<and> handleGetSmtpConfigs decode_no_servers None None
       = (ConfigsFailed ''No config in env!'', None)"
proof -
  have m: "empty_or_malformed decode_no_servers (Some ''W10='')"
    by (simp add: empty_or_malformed_def decode_no_servers_def)
  have r: "reachable_cache decode_no_servers (Some ''W10='') None"
    by (simp add: reachable_cache_def)
  have e: "(None :: string option) = None \<or> (None :: string option) = Some []" by simp
  from config_loading_fails_never_empty [of decode_no_servers "Some ''W10=''" None]
    config_loading_fails_never_empty [of decode_no_servers None None]
  show ?thesis using m r e by simp
qed


section \<open>Reading the audit log\<close>

lemma mset_insert_by: "mset (insert_by cmp x xs) = add_mset x (mset xs)"
  by (induction xs) simp_all

lemma mset_sort_by: "mset (sort_by cmp xs) = mset xs"
  by (induction xs) (simp_all add: mset_insert_by)

lemma set_sort_by: "set (sort_by cmp xs) = set xs"
  using mset_sort_by [of cmp xs] by (metis set_mset_mset)

lemma length_sort_by: "length (sort_by cmp xs) = length xs"
  using mset_sort_by [of cmp xs] by (metis size_mset)

lemma set_insert_by: "set (insert_by cmp x xs) = insert x (set xs)"
  using mset_insert_by [of cmp x xs] by (metis set_mset_mset set_mset_add_mset_insert)

lemma compare_dated:
  assumes "getTime (timestamp x) \<noteq> None" and "getTime (timestamp y) \<noteq> None"
  shows "SortCompare (newest_first getTime) x y \<le> 0 \<longleftrightarrow> not_newer getTime y x"
  using assms by (auto simp: SortCompare_def newest_first_def not_newer_def)

lemma not_newer_total:
  assumes "getTime (timestamp x) \<noteq> None" and "getTime (timestamp y) \<noteq> None"
    and "\<not> not_newer getTime y x"
  shows "not_newer getTime x y"
  using assms by (auto simp: not_newer_def)

lemma not_newer_trans:
  assumes "not_newer getTime c b" and "not_newer getTime b a"
  shows "not_newer getTime c a"
  using assms by (auto simp: not_newer_def split: option.splits)

lemma dated_Cons:
  "dated getTime (x # xs) \<longleftrightarrow> getTime (timestamp x) \<noteq> None \<and> dated getTime xs"
  by (simp add: dated_def)

lemma dated_insert_by:
  "dated getTime (insert_by cmp x xs) \<longleftrightarrow> getTime (timestamp x) \<noteq> None \<and> dated getTime xs"
  by (auto simp: dated_def list_all_iff set_insert_by)

lemma dated_sort_by: "dated getTime (sort_by cmp xs) \<longleftrightarrow> dated getTime xs"
  by (simp add: dated_def list_all_iff set_sort_by)

lemma sorted_insert_by:
  assumes "getTime (timestamp x) \<noteq> None" and "dated getTime xs"
    and "newest_first_sorted getTime xs"
  shows "newest_first_sorted getTime (insert_by (SortCompare (newest_first getTime)) x xs)"
  using assms(2,3)
proof (induction xs)
  case Nil
  show ?case by (simp add: newest_first_sorted_def)
next
  case (Cons y ys)
  have y: "getTime (timestamp y) \<noteq> None" and dys: "dated getTime ys"
    using Cons.prems(1) by (simp_all add: dated_Cons)
  have below_y: "\<forall>z\<in>set ys. not_newer getTime z y"
    and ys: "newest_first_sorted getTime ys"
    using Cons.prems(2) by (simp_all add: newest_first_sorted_def)
  show ?case
  proof (cases "SortCompare (newest_first getTime) x y \<le> 0")
    case True
    then have yx: "not_newer getTime y x" using compare_dated [OF assms(1) y] by simp
    have "\<forall>z\<in>set ys. not_newer getTime z x"
      using below_y yx not_newer_trans by blast
    then show ?thesis using True yx Cons.prems(2) by (simp add: newest_first_sorted_def)
  next
    case False
    then have "\<not> not_newer getTime y x" using compare_dated [OF assms(1) y] by simp
    then have xy: "not_newer getTime x y" using not_newer_total [OF assms(1) y] by simp
    have tail: "newest_first_sorted getTime (insert_by (SortCompare (newest_first getTime)) x ys)"
      using Cons.IH [OF dys ys] .
    have "\<forall>z\<in>set (insert_by (SortCompare (newest_first getTime)) x ys). not_newer getTime z y"
      using below_y xy by (simp add: set_insert_by)
    then show ?thesis using False tail by (simp add: newest_first_sorted_def)
  qed
qed

lemma sorted_sort_by:
  assumes "dated getTime xs"
  shows "newest_first_sorted getTime (sort_by (SortCompare (newest_first getTime)) xs)"
  using assms
proof (induction xs)
  case Nil
  show ?case by (simp add: newest_first_sorted_def)
next
  case (Cons x xs)
  have x: "getTime (timestamp x) \<noteq> None" and dxs: "dated getTime xs"
    using Cons.prems by (simp_all add: dated_Cons)
  have "dated getTime (sort_by (SortCompare (newest_first getTime)) xs)"
    using dxs by (simp add: dated_sort_by)
  then show ?case
    using sorted_insert_by [of getTime x "sort_by (SortCompare (newest_first getTime)) xs"]
      x Cons.IH [OF dxs] by simp
qed

lemma sorted_take: "newest_first_sorted getTime xs \<Longrightarrow> newest_first_sorted getTime (take k xs)"
  by (simp add: newest_first_sorted_def sorted_wrt_take)

lemma get_email_logs_array:
  assumes "getEmailLogs st = LogsArray logs"
  shows "get_email_logs getTime st limit f =
           LogsRetrieved
             (case limit of
                None \<Rightarrow> sort_by (SortCompare (newest_first getTime)) (matching f logs)
              | Some k \<Rightarrow> if 0 < k
                          then take (nat k) (sort_by (SortCompare (newest_first getTime)) (matching f logs))
                          else sort_by (SortCompare (newest_first getTime)) (matching f logs))"
  using assms
  by (auto simp: get_email_logs_def matching_def Let_def split: option.splits)

text \<open>
  C5 (as amended). For every stored log sequence that \<^verbatim>\<open>getEmailLogs\<close> returns, every
  limit and either value b of \<^verbatim>\<open>filterBySuccess\<close>, the tool answers with entries that all
  have success = b, taken from the stored entries with success = b; without a limit they
  are all of those entries. When the timestamp of every stored entry with success = b is
  a date, the answer is in newest-first order of timestamp.
\<close>

theorem get_email_logs_filtered_newest_first:
  assumes "getEmailLogs st = LogsArray logs"
  shows "\<exists>r. get_email_logs getTime st limit (Some b) = LogsRetrieved r
           \<and> (\<forall>e \<in> set r. log_success e = b)
           \<and> mset r \<subseteq># mset (filter (\<lambda>e. log_success e = b) logs)
           \<and> (limit = None \<longrightarrow> mset r = mset (filter (\<lambda>e. log_success e = b) logs))
           \<and> (dated getTime (filter (\<lambda>e. log_success e = b) logs)
                \<longrightarrow> newest_first_sorted getTime r)"
proof -
  let ?s = "sort_by (SortCompare (newest_first getTime)) (matching (Some b) logs)"
  have m: "matching (Some b) logs = filter (\<lambda>e. log_success e = b) logs"
    by (simp add: matching_def)
  have ms: "mset ?s = mset (filter (\<lambda>e. log_success e = b) logs)"
    using mset_sort_by [of "SortCompare (newest_first getTime)" "matching (Some b) logs"] m
    by simp
  have all: "\<forall>e \<in> set ?s. log_success e = b"
    using set_sort_by [of "SortCompare (newest_first getTime)" "matching (Some b) logs"] m
    by simp
  have so: "dated getTime (filter (\<lambda>e. log_success e = b) logs) \<longrightarrow> newest_first_sorted getTime ?s"
    using sorted_sort_by [of getTime "matching (Some b) logs"] m by simp
  have tk: "\<And>k. mset (take k ?s) \<subseteq># mset ?s"
    by (metis append_take_drop_id mset_append mset_subset_eq_add_left)
  have tkset: "\<And>k. \<forall>e \<in> set (take k ?s). log_success e = b"
    using all by (meson in_set_takeD)
  have tkso: "\<And>k. dated getTime (filter (\<lambda>e. log_success e = b) logs)
                 \<longrightarrow> newest_first_sorted getTime (take k ?s)"
    using so sorted_take by blast
  show ?thesis
  proof (cases limit)
    case None
    then have "get_email_logs getTime st limit (Some b) = LogsRetrieved ?s"
      using get_email_logs_array [OF assms, of getTime limit "Some b"] by simp
    then show ?thesis using all so ms by simp
  next
    case (Some k)
    show ?thesis
    proof (cases "0 < k")
      case True
      then have "get_email_logs getTime st limit (Some b) = LogsRetrieved (take (nat k) ?s)"
        using Some get_email_logs_array [OF assms, of getTime limit "Some b"] by simp
      then show ?thesis
        using tkset [of "nat k"] tkso [of "nat k"] tk [of "nat k"] ms Some
        by simp
    next
      case False
      then have "get_email_logs getTime st limit (Some b) = LogsRetrieved ?s"
        using Some get_email_logs_array [OF assms, of getTime limit "Some b"] by simp
      then show ?thesis using all so ms Some by simp
    qed
  qed
qed

lemma older_than_taken:
  assumes "newest_first_sorted getTime s"
    and "x \<in> set (drop k s)" and "y \<in> set (take k s)"
  shows "not_newer getTime x y"
proof -
  have "newest_first_sorted getTime (take k s @ drop k s)" using assms(1) by simp
  then show ?thesis using assms(2,3)
    unfolding newest_first_sorted_def sorted_wrt_append by blast
qed

lemma mset_minus_take: "mset s - mset (take k s) = mset (drop k s)"
proof -
  have "mset s = mset (take k s) + mset (drop k s)"
    by (metis append_take_drop_id mset_append)
  then show ?thesis by simp
qed

text \<open>
  C6 (as amended). For every stored log sequence and every limit K > 0, the tool answers
  with at most K entries, namely min K n of the n entries matching the filter. When the
  timestamp of every matching entry is a date, the answer is in newest-first order and
  every matching entry left out is no more recent than any entry returned.
\<close>

theorem get_email_logs_limit_most_recent:
  assumes "getEmailLogs st = LogsArray logs" and "0 < K"
  shows "\<exists>r. get_email_logs getTime st (Some K) f = LogsRetrieved r
           \<and> length r \<le> nat K
           \<and> length r = min (nat K) (length (matching f logs))
           \<and> mset r \<subseteq># mset (matching f logs)
           \<and> (dated getTime (matching f logs) \<longrightarrow>
                newest_first_sorted getTime r
              \<and> (\<forall>x \<in># mset (matching f logs) - mset r. \<forall>y \<in> set r. not_newer getTime x y))"
proof -
  let ?s = "sort_by (SortCompare (newest_first getTime)) (matching f logs)"
  let ?r = "take (nat K) ?s"
  have run: "get_email_logs getTime st (Some K) f = LogsRetrieved ?r"
    using assms(2) get_email_logs_array [OF assms(1), of getTime "Some K" f] by simp
  have ms: "mset ?s = mset (matching f logs)" by (rule mset_sort_by)
  have len: "length ?r = min (nat K) (length (matching f logs))"
    by (simp add: length_sort_by min.commute)
  have sub: "mset ?r \<subseteq># mset (matching f logs)"
    using ms by (metis append_take_drop_id mset_append mset_subset_eq_add_left)
  have rest: "mset (matching f logs) - mset ?r = mset (drop (nat K) ?s)"
    using mset_minus_take [of ?s "nat K"] ms by simp
  have ord: "dated getTime (matching f logs) \<longrightarrow>
                newest_first_sorted getTime ?r
              \<and> (\<forall>x \<in># mset (matching f logs) - mset ?r. \<forall>y \<in> set ?r. not_newer getTime x y)"
  proof
    assume "dated getTime (matching f logs)"
    then have so: "newest_first_sorted getTime ?s" by (rule sorted_sort_by)
    show "newest_first_sorted getTime ?r
              \<and> (\<forall>x \<in># mset (matching f logs) - mset ?r. \<forall>y \<in> set ?r. not_newer getTime x y)"
      using sorted_take [OF so, of "nat K"] older_than_taken [OF so] rest by simp
  qed
  show ?thesis
    using run len sub ord by simp
qed

text \<open>
  C9. With a limit of 0 or a negative limit the tool answers as it does without a limit:
  with all the entries matching the filter.
\<close>

theorem get_email_logs_nonpositive_limit:
  assumes "k \<le> 0"
  shows "get_email_logs getTime st (Some k) f = get_email_logs getTime st None f
       \<and> (\<forall>logs. getEmailLogs st = LogsArray logs \<longrightarrow>
            (\<exists>r. get_email_logs getTime st (Some k) f = LogsRetrieved r
                \<and> mset r = mset (matching f logs)
                \<and> length r = length (matching f logs)))"
proof (intro conjI allI impI)
  show "get_email_logs getTime st (Some k) f = get_email_logs getTime st None f"
    using assms by (simp add: get_email_logs_def Let_def split: logs_value.splits)
next
  fix logs assume a: "getEmailLogs st = LogsArray logs"
  have "get_email_logs getTime st (Some k) f
          = LogsRetrieved (sort_by (SortCompare (newest_first getTime)) (matching f logs))"
    using assms get_email_logs_array [OF a, of getTime "Some k" f] by simp
  then show "\<exists>r. get_email_logs getTime st (Some k) f = LogsRetrieved r
                \<and> mset r = mset (matching f logs)
                \<and> length r = length (matching f logs)"
    by (simp add: mset_sort_by length_sort_by)
qed

lemma example_times:
  "example_getTime ''2024-01-01T00:00:00.000Z'' = Some 1704067200000"
  "example_getTime ''2024-01-02T00:00:00.000Z'' = Some 1704153600000"
  "example_getTime ''2024-01-03T00:00:00.000Z'' = Some 1704240000000"
  "example_getTime ''2024-01-04T00:00:00.000Z'' = Some 1704326400000"
  "example_getTime ''2024-01-05T00:00:00.000Z'' = Some 1704412800000"
  "example_getTime ''not a date'' = None"
  by (simp_all add: example_getTime_def)

lemma example_logs_all:
  "get_email_logs example_getTime example_storage None None =
     LogsRetrieved [example_entry ''2024-01-04T00:00:00.000Z'' True,
                    example_entry ''2024-01-03T00:00:00.000Z'' True,
                    example_entry ''2024-01-02T00:00:00.000Z'' False,
                    example_entry ''2024-01-01T00:00:00.000Z'' True]"
  by (simp add: get_email_logs_def getEmailLogs_def example_storage_def example_entries_def
      SortCompare_def newest_first_def example_times example_entry_def)

lemma example_logs_filtered:
  "get_email_logs example_getTime example_storage (Some 2) (Some True) =
     LogsRetrieved [example_entry ''2024-01-04T00:00:00.000Z'' True,
                    example_entry ''2024-01-03T00:00:00.000Z'' True]"
  by (simp add: get_email_logs_def getEmailLogs_def example_storage_def example_entries_def
      SortCompare_def newest_first_def example_times example_entry_def numeral_2_eq_2)

lemma example_logs_zero:
  "get_email_logs example_getTime example_storage (Some 0) (Some True) =
     LogsRetrieved [example_entry ''2024-01-04T00:00:00.000Z'' True,
                    example_entry ''2024-01-03T00:00:00.000Z'' True,
                    example_entry ''2024-01-01T00:00:00.000Z'' True]"
  by (simp add: get_email_logs_def getEmailLogs_def example_storage_def example_entries_def
      SortCompare_def newest_first_def example_times example_entry_def)

lemma example_entries_dated: "dated example_getTime (matching f example_entries)"
  by (cases f) (simp_all add: dated_def matching_def example_entries_def example_entry_def
      example_times)

lemma undated_logs_kept_in_stored_order:
  "sort_by (SortCompare (newest_first example_getTime)) undated_entries = undated_entries"
  by (simp add: undated_entries_def SortCompare_def newest_first_def example_times
      example_entry_def)

text \<open>
  With an entry whose timestamp is no date between them, two dated entries with
  success = true come back oldest first: the answer is not in newest-first order.
\<close>

theorem get_email_logs_filtered_undated_counterexample:
  "getEmailLogs undated_storage = LogsArray undated_entries
   \<and> get_email_logs example_getTime undated_storage None (Some True) =
       LogsRetrieved [example_entry ''2024-01-01T00:00:00.000Z'' True,
                      example_entry ''not a date'' True,
                      example_entry ''2024-01-02T00:00:00.000Z'' True]
   \<and> example_getTime ''2024-01-01T00:00:00.000Z'' = Some 1704067200000
   \<and> example_getTime ''2024-01-02T00:00:00.000Z'' = Some 1704153600000
   \<and> \<not> not_newer example_getTime (example_entry ''2024-01-02T00:00:00.000Z'' True)
                                  (example_entry ''2024-01-01T00:00:00.000Z'' True)
   \<and> \<not> newest_first_sorted example_getTime
         [example_entry ''2024-01-01T00:00:00.000Z'' True,
          example_entry ''not a date'' True,
          example_entry ''2024-01-02T00:00:00.000Z'' True]"
proof -
  have a: "getEmailLogs undated_storage = LogsArray undated_entries"
    by (simp add: getEmailLogs_def undated_storage_def)
  have m: "matching (Some True) undated_entries = undated_entries"
    by (simp add: matching_def undated_entries_def example_entry_def)
  have r: "get_email_logs example_getTime undated_storage None (Some True) =
             LogsRetrieved undated_entries"
    using get_email_logs_array [OF a, of example_getTime None "Some True"] m
      undated_logs_kept_in_stored_order by simp
  have n: "\<not> not_newer example_getTime (example_entry ''2024-01-02T00:00:00.000Z'' True)
                                  (example_entry ''2024-01-01T00:00:00.000Z'' True)"
    by (simp add: not_newer_def example_entry_def example_times)
  have s: "\<not> newest_first_sorted example_getTime
         [example_entry ''2024-01-01T00:00:00.000Z'' True,
          example_entry ''not a date'' True,
          example_entry ''2024-01-02T00:00:00.000Z'' True]"
    using n by (simp add: newest_first_sorted_def)
  show ?thesis using a r n s by (simp add: undated_entries_def example_times)
qed

text \<open>
  With the same stored log and a limit of 1 the tool answers with the entry of
  1 January, while the entry of 2 January is stored and more recent.
\<close>

theorem get_email_logs_limit_undated_counterexample:
  "getEmailLogs undated_storage = LogsArray undated_entries
   \<and> get_email_logs example_getTime undated_storage (Some 1) None =
       LogsRetrieved [example_entry ''2024-01-01T00:00:00.000Z'' True]
   \<and> example_entry ''2024-01-02T00:00:00.000Z'' True \<in> set undated_entries
   \<and> example_getTime ''2024-01-01T00:00:00.000Z'' = Some 1704067200000
   \<and> example_getTime ''2024-01-02T00:00:00.000Z'' = Some 1704153600000
   \<and> \<not> not_newer example_getTime (example_entry ''2024-01-02T00:00:00.000Z'' True)
                                  (example_entry ''2024-01-01T00:00:00.000Z'' True)"
proof -
  have a: "getEmailLogs undated_storage = LogsArray undated_entries"
    by (simp add: getEmailLogs_def undated_storage_def)
  have m: "matching None undated_entries = undated_entries"
    by (simp add: matching_def)
  have r: "get_email_logs example_getTime undated_storage (Some 1) None =
             LogsRetrieved (take (nat 1) undated_entries)"
    using get_email_logs_array [OF a, of example_getTime "Some 1" None] m
      undated_logs_kept_in_stored_order by simp
  have n: "\<not> not_newer example_getTime (example_entry ''2024-01-02T00:00:00.000Z'' True)
                                  (example_entry ''2024-01-01T00:00:00.000Z'' True)"
    by (simp add: not_newer_def example_entry_def example_times)
  show ?thesis using a r n by (simp add: undated_entries_def example_times)
qed

theorem get_email_logs_filtered_newest_first_witness:
  "getEmailLogs example_storage = LogsArray example_entries
   \<and> dated example_getTime (filter (\<lambda>e. log_success e = True) example_entries)
   \<and> (\<exists>r. get_email_logs example_getTime example_storage (Some 2) (Some True) = LogsRetrieved r
           \<and> (\<forall>e \<in> set r. log_success e = True)
           \<and> newest_first_sorted example_getTime r)"
proof -
  have h: "getEmailLogs example_storage = LogsArray example_entries"
    by (simp add: getEmailLogs_def example_storage_def)
  have d: "dated example_getTime (filter (\<lambda>e. log_success e = True) example_entries)"
    using example_entries_dated [of "Some True"] by (simp add: matching_def)
  from get_email_logs_filtered_newest_first [OF h, of example_getTime "Some 2" True]
  show ?thesis using h d by blast
qed

theorem get_email_logs_limit_most_recent_witness:
  "getEmailLogs example_storage = LogsArray example_entries \<and> (0::int) < 2
   \<and> dated example_getTime (matching (Some True) example_entries)
   \<and> (\<exists>r. get_email_logs example_getTime example_storage (Some 2) (Some True) = LogsRetrieved r
           \<and> length r \<le> nat 2
           \<and> newest_first_sorted example_getTime r
           \<and> (\<forall>x \<in># mset (matching (Some True) example_entries) - mset r. \<forall>y \<in> set r.
                 not_newer example_getTime x y))"
proof -
  have h: "getEmailLogs example_storage = LogsArray example_entries"
    by (simp add: getEmailLogs_def example_storage_def)
  have k: "(0::int) < 2" by simp
  have d: "dated example_getTime (matching (Some True) example_entries)"
    by (rule example_entries_dated)
  from get_email_logs_limit_most_recent [OF h k, of example_getTime "Some True"]
  show ?thesis using h k d by blast
qed

theorem get_email_logs_nonpositive_limit_witness:
  "(0::int) \<le> 0
   \<and> get_email_logs example_getTime example_storage (Some 0) (Some True)
       = get_email_logs example_getTime example_storage None (Some True)"
proof -
  have k: "(0::int) \<le> 0" by simp
  from get_email_logs_nonpositive_limit [OF k, of example_getTime example_storage "Some True"]
  show ?thesis using k by blast
qed


section \<open>Appending to the audit log\<close>

lemma logEmailActivity_try_cases:
  "logEmailActivity_try st entry =
     (if append_succeeds st
      then (Inr True, st\<lparr>logFile := Stored (the (stored_entries (logFile st)) @ [entry])\<rparr>)
      else (Inl (if \<not> ensureDir_ok st then Error ''ensureDir failed''
                 else if logFile st = Unreadable then Error ''readJson failed''
                 else if logFile st = NotAnArray then TypeError ''logs.push is not a function''
                 else Error ''writeJson failed''),
            if ensureDir_ok st \<and> stored_entries (logFile st) \<noteq> None
            then st\<lparr>logFile := (case write_result st of WriteFails f \<Rightarrow> f | WriteOk \<Rightarrow> logFile st)\<rparr>
            else st))"
  by (cases "logFile st"; cases "write_result st")
     (simp_all add: logEmailActivity_try_def logEmailActivity_read_def
        logEmailActivity_write_def append_succeeds_def)

lemma logEmailActivity_result:
  "logEmailActivity st entry = (Inr (append_succeeds st), snd (logEmailActivity_try st entry))"
  by (simp add: logEmailActivity_def logEmailActivity_try_cases)

text \<open>
  C7. For every entry and every state of the storage, the \<^verbatim>\<open>try\<close> block throws exactly
  when the append does not go through, and \<^verbatim>\<open>logEmailActivity\<close> returns normally in
  every case: true when the append went through, false when it did not.
\<close>

theorem logEmailActivity_never_throws:
  "fst (logEmailActivity st entry) = Inr (append_succeeds st)
   \<and> (isl (fst (logEmailActivity_try st entry)) \<longleftrightarrow> \<not> append_succeeds st)"
  by (simp add: logEmailActivity_result logEmailActivity_try_cases)

theorem logEmailActivity_never_throws_witness:
  "logEmailActivity (example_storage\<lparr>write_result := WriteFails Unreadable\<rparr>)
       (example_entry ''55555'' False)
     = (Inr False, example_storage\<lparr>logFile := Unreadable, write_result := WriteFails Unreadable\<rparr>)
   \<and> isl (fst (logEmailActivity_try (example_storage\<lparr>write_result := WriteFails Unreadable\<rparr>)
                 (example_entry ''55555'' False)))"
proof -
  have n: "\<not> append_succeeds (example_storage\<lparr>write_result := WriteFails Unreadable\<rparr>)"
    by (simp add: append_succeeds_def)
  have s: "snd (logEmailActivity (example_storage\<lparr>write_result := WriteFails Unreadable\<rparr>)
                 (example_entry ''55555'' False))
           = example_storage\<lparr>logFile := Unreadable, write_result := WriteFails Unreadable\<rparr>"
    by (simp add: logEmailActivity_def logEmailActivity_try_def logEmailActivity_read_def
        logEmailActivity_write_def example_storage_def)
  from logEmailActivity_never_throws
         [of "example_storage\<lparr>write_result := WriteFails Unreadable\<rparr>"
             "example_entry ''55555'' False"]
  show ?thesis using n s by (simp add: prod_eq_iff)
qed

text \<open>
  A call with no other call in between is its read followed at once by the rest of the
  call, and then a return of true means the file holds what it held, with the entry at
  the end.
\<close>

lemma logEmailActivity_read_resume:
  "logEmailActivity st entry = logEmailActivity_resume st (logEmailActivity_read st) entry"
  by (simp add: logEmailActivity_def logEmailActivity_try_def logEmailActivity_resume_def)

lemma logEmailActivity_alone_appends:
  assumes "stored_entries (logFile st) = Some L"
    and "logEmailActivity st e = (Inr True, st')"
  shows "logFile st' = Stored (L @ [e]) \<and> getEmailLogs st' = LogsArray (L @ [e])"
proof -
  have ok: "append_succeeds st"
    using assms(2) logEmailActivity_result [of st e] by simp
  then have "st' = st\<lparr>logFile := Stored (L @ [e])\<rparr>"
    using assms by (simp add: logEmailActivity_def logEmailActivity_try_cases)
  then show ?thesis by (simp add: getEmailLogs_def)
qed

text \<open>
  A resumed call returns normally whatever its read gave and whatever the storage is by
  then, and what it writes is the array it read with its entry at the end, whatever the
  file holds by then.
\<close>

lemma logEmailActivity_resume_returns:
  "\<exists>b. fst (logEmailActivity_resume st r entry) = Inr b"
  by (auto simp: logEmailActivity_resume_def logEmailActivity_write_def
      split: sum.splits logs_value.splits write_outcome.splits)


lemma logEmailActivity_resume_writes_what_it_read:
  assumes "logEmailActivity_resume st (Inr (LogsArray L)) e = (Inr True, st')"
  shows "logFile st' = Stored (L @ [e])"
  using assms
  by (auto simp: logEmailActivity_resume_def logEmailActivity_write_def
      split: write_outcome.splits)

text \<open>
  C8, at two appends that overlap. The file holds the one entry of 1 January; two calls
  read it before either writes, for the entries of 2 and 3 January. Both calls return
  true, and the file is left holding the entries of 1 and 3 January: the entry of
  2 January, stored by the first call, has been removed by the second.
\<close>

theorem overlapping_appends_lose_entry:
  "overlapping_appends
     \<lparr> ensureDir_ok = True,
       logFile = Stored [example_entry ''2024-01-01T00:00:00.000Z'' True],
       write_result = WriteOk \<rparr>
     (example_entry ''2024-01-02T00:00:00.000Z'' True)
     (example_entry ''2024-01-03T00:00:00.000Z'' False)
   = ((Inr True, Inr True),
      \<lparr> ensureDir_ok = True,
        logFile = Stored [example_entry ''2024-01-01T00:00:00.000Z'' True,
                          example_entry ''2024-01-03T00:00:00.000Z'' False],
        write_result = WriteOk \<rparr>)
   \<and> fst (logEmailActivity_resume
            \<lparr> ensureDir_ok = True,
              logFile = Stored [example_entry ''2024-01-01T00:00:00.000Z'' True],
              write_result = WriteOk \<rparr>
            (Inr (LogsArray [example_entry ''2024-01-01T00:00:00.000Z'' True]))
            (example_entry ''2024-01-02T00:00:00.000Z'' True))
       = Inr True
   \<and> logFile (snd (logEmailActivity_resume
            \<lparr> ensureDir_ok = True,
              logFile = Stored [example_entry ''2024-01-01T00:00:00.000Z'' True],
              write_result = WriteOk \<rparr>
            (Inr (LogsArray [example_entry ''2024-01-01T00:00:00.000Z'' True]))
            (example_entry ''2024-01-02T00:00:00.000Z'' True)))
       = Stored [example_entry ''2024-01-01T00:00:00.000Z'' True,
                 example_entry ''2024-01-02T00:00:00.000Z'' True]"
  by (simp add: overlapping_appends_def logEmailActivity_read_def logEmailActivity_resume_def
      logEmailActivity_write_def Let_def)


section \<open>A single recipient given to \<^verbatim>\<open>send-email\<close>\<close>

text \<open>
  C10. For every request whose \<^verbatim>\<open>to\<close> is a single recipient r instead of an array, the
  message handed to \<^verbatim>\<open>sendEmail\<close> has the one-element list [r] as its recipients; it is
  the message of the same request with \<^verbatim>\<open>to\<close> given as the array [r], and for every
  email service and world the handler's response and the world it leaves are the same
  for both requests.
\<close>

theorem handleSendEmail_single_recipient:
  assumes "p_to parameters = ToSingle r"
  shows "ed_to (prepareEmailData parameters) = [r]
       \<and> prepareEmailData parameters = prepareEmailData (parameters\<lparr>p_to := ToArray [r]\<rparr>)
       \<and> handleSendEmail sendEmail parameters w
           = handleSendEmail sendEmail (parameters\<lparr>p_to := ToArray [r]\<rparr>) w"
  using assms by (simp add: handleSendEmail_def prepareEmailData_def Let_def)

theorem handleSendEmail_single_recipient_witness:
  "p_to (example_send_params (ToSingle (example_recipient ''a@example.org'')))
     = ToSingle (example_recipient ''a@example.org'')
   \<and> handleSendEmail example_sendEmail
        (example_send_params (ToSingle (example_recipient ''a@example.org''))) 0
       = (\<lparr> resp_success = True, resp_message = None \<rparr>, 1)
   \<and> handleSendEmail example_sendEmail
        (example_send_params (ToArray [example_recipient ''a@example.org''])) 0
       = (\<lparr> resp_success = True, resp_message = None \<rparr>, 1)"
proof -
  have h: "p_to (example_send_params (ToSingle (example_recipient ''a@example.org'')))
     = ToSingle (example_recipient ''a@example.org'')"
    by (simp add: example_send_params_def)
  have a: "handleSendEmail example_sendEmail
        (example_send_params (ToArray [example_recipient ''a@example.org''])) 0
       = (\<lparr> resp_success = True, resp_message = None \<rparr>, 1)"
    by (simp add: handleSendEmail_def prepareEmailData_def example_send_params_def
        example_sendEmail_def)
  have u: "(example_send_params (ToSingle (example_recipient ''a@example.org'')))
             \<lparr>p_to := ToArray [example_recipient ''a@example.org'']\<rparr>
           = example_send_params (ToArray [example_recipient ''a@example.org''])"
    by (simp add: example_send_params_def)
  from handleSendEmail_single_recipient [OF h, of example_sendEmail 0]
  show ?thesis using h a u by simp
qed

end
